theory Spec2Isabelle
  imports Main "HOL-Library.AList"
begin

section \<open>Strings as the server reads them\<close>

text \<open>
  The server (the file with \<^verbatim>\<open>activeCampaigns\<close>, \<^verbatim>\<open>pausedCampaigns\<close>,
  \<^verbatim>\<open>continueCampaign\<close> and \<^verbatim>\<open>sendMessagesSequentially\<close>) works on JavaScript
  strings. A string is modelled as a list of characters with codes below 256; the
  functions below are the string methods and regular expressions the server uses.
\<close>

definition is_digit :: "char \<Rightarrow> bool" where
  \<comment> \<open>the class \<^verbatim>\<open>\d\<close>\<close>
  "is_digit c = (48 \<le> (of_char c :: nat) \<and> (of_char c :: nat) \<le> 57)"

definition is_letter :: "char \<Rightarrow> bool" where
  \<comment> \<open>the class \<^verbatim>\<open>[a-zA-Z]\<close>\<close>
  "is_letter c =
     ((97 \<le> (of_char c :: nat) \<and> (of_char c :: nat) \<le> 122) \<or>
      (65 \<le> (of_char c :: nat) \<and> (of_char c :: nat) \<le> 90))"

definition is_space :: "char \<Rightarrow> bool" where
  \<comment> \<open>the class \<^verbatim>\<open>\s\<close> on codes below 256: tab, line feed, vertical tab, form feed,
      carriage return, space and the no-break space\<close>
  "is_space c =
     ((9 \<le> (of_char c :: nat) \<and> (of_char c :: nat) \<le> 13) \<or>
      (of_char c :: nat) = 32 \<or> (of_char c :: nat) = 160)"

definition is_separator :: "char \<Rightarrow> bool" where
  \<comment> \<open>the class \<^verbatim>\<open>[+\-\s]\<close>\<close>
  "is_separator c = (c = CHR ''+'' \<or> c = CHR ''-'' \<or> is_space c)"

definition strip_separators :: "string \<Rightarrow> string" where
  \<comment> \<open>\<^verbatim>\<open>s.replace(/[+\-\s]/g, '')\<close>\<close>
  "strip_separators s = filter (\<lambda>c. \<not> is_separator c) s"

definition has_letter :: "string \<Rightarrow> bool" where
  \<comment> \<open>\<^verbatim>\<open>/[a-zA-Z]/.test(s)\<close>\<close>
  "has_letter s = list_ex is_letter s"

definition all_digits :: "string \<Rightarrow> bool" where
  \<comment> \<open>\<^verbatim>\<open>/^\d+$/.test(s)\<close>: one digit at least, and nothing else\<close>
  "all_digits s = (s \<noteq> [] \<and> list_all is_digit s)"

fun startsWith :: "string \<Rightarrow> string \<Rightarrow> bool" where
  "startsWith s [] = True"
| "startsWith [] (p # ps) = False"
| "startsWith (c # cs) (p # ps) = (c = p \<and> startsWith cs ps)"

fun str_includes :: "string \<Rightarrow> string \<Rightarrow> bool" where
  "str_includes [] p = (p = [])"
| "str_includes (c # cs) p = (startsWith (c # cs) p \<or> str_includes cs p)"

definition lower_char :: "char \<Rightarrow> char" where
  "lower_char c =
     (if 65 \<le> (of_char c :: nat) \<and> (of_char c :: nat) \<le> 90
      then char_of ((of_char c :: nat) + 32) else c)"

definition toLowerCase :: "string \<Rightarrow> string" where
  \<comment> \<open>on the text of error messages, which is ASCII: the letters A to Z are lowered\<close>
  "toLowerCase s = map lower_char s"

section \<open>The recipient validator\<close>

text \<open>
  \<^verbatim>\<open>validateAndFormatPhoneNumber(phoneNumber, rowIndex)\<close> returns the canonical address
  or \<^verbatim>\<open>null\<close> (here \<open>None\<close>). The checks stand in the order of the source: the header
  test on row 0, the digits test on the number without its separators, the minimum
  length on the same, and then the four formatting branches, which look at the raw
  input.
\<close>

definition validateAndFormatPhoneNumber :: "string \<Rightarrow> nat \<Rightarrow> string option" where
  "validateAndFormatPhoneNumber phoneNumber rowIndex =
     (if rowIndex = 0 \<and> has_letter phoneNumber \<and> \<not> all_digits (strip_separators phoneNumber)
      then None
      else let cleanNumber = strip_separators phoneNumber in
        if \<not> all_digits cleanNumber then None
        else if length cleanNumber < 10 then None
        else if startsWith phoneNumber ''91'' \<and> length phoneNumber = 12
          then Some (phoneNumber @ ''@c.us'')
        else if startsWith phoneNumber ''+91''
          then Some (drop 1 phoneNumber @ ''@c.us'')
        else if length phoneNumber = 10
          then Some (''91'' @ phoneNumber @ ''@c.us'')
        else Some (phoneNumber @ ''@c.us''))"

section \<open>The failure classifier\<close>

text \<open>
  \<^verbatim>\<open>isNumberUnavailableError(error)\<close> lowers the message and looks for one of fifteen
  patterns, or for a timeout of 30000ms or 15000ms. An error is modelled by its message.
\<close>

definition unavailablePatterns :: "string list" where
  "unavailablePatterns =
     [''waiting for selector'', ''timeout'', ''navigation timeout'', ''networkidle2'',
      ''element not found'', ''selector not found'', ''page not found'', ''invalid number'',
      ''number not found'', ''failed: waiting failed'', ''exceeded'', ''not available'',
      ''unavailable'', ''invalid phone number'', ''phone number not found'']"

definition isNumberUnavailableError :: "string \<Rightarrow> bool" where
  "isNumberUnavailableError errorText =
     (let errorMessage = toLowerCase errorText;
          isTimeoutError = (str_includes errorMessage ''timeout'' \<and>
            (str_includes errorMessage ''30000ms'' \<or> str_includes errorMessage ''15000ms''))
      in list_ex (\<lambda>pattern. str_includes errorMessage pattern) unavailablePatterns
         \<or> isTimeoutError)"

definition categorize :: "string \<Rightarrow> string \<times> string" where
  \<comment> \<open>the catch block of the delivery loop: the category and the message it reports\<close>
  "categorize errorText =
     (if isNumberUnavailableError errorText
        then (''unavailable'', ''Number not available on WhatsApp'')
      else if str_includes errorText ''connection'' \<or> str_includes errorText ''timeout''
        then (''connection'', errorText)
      else (''failed'', errorText))"

section \<open>The server's state\<close>

text \<open>
  A campaign is the object the upload handler stores under its identifier. Times are
  milliseconds, as \<^verbatim>\<open>Date.now()\<close> gives them. \<^verbatim>\<open>lastActivity\<close> is set wherever a
  campaign is created, so the fallback to \<^verbatim>\<open>startedAt\<close> in the monitors never applies.
\<close>

record campaign =
  campaignId :: string
  phoneNumbers :: "string list"
  message :: string
  mediaFile :: "string option"
  fileType :: string
  delayRange :: string
  currentIndex :: nat
  sentCount :: nat
  failedCount :: nat
  isPaused :: bool
  createdAt :: int
  startedAt :: int
  lastActivity :: int
  pausedAt :: "int option"
  resumedAt :: "int option"

text \<open>What \<^verbatim>\<open>io.emit\<close> sends to the dashboards, in the order it is sent.\<close>

datatype event =
    Status bool bool string
      \<comment> \<open>authenticated, ready, message\<close>
  | BulkSendStart nat "string option" "(nat \<times> nat \<times> nat) option"
      \<comment> \<open>total, campaignId, and from \<^verbatim>\<open>continueCampaign\<close>: pending, sent, failed\<close>
  | HumanBehavior string string nat nat "string option"
      \<comment> \<open>number, action, progress, total, campaignId\<close>
  | MessageSent string string "string option" nat nat "string option"
      \<comment> \<open>number, status, error, progress, total, campaignId\<close>
  | BulkSendComplete nat nat nat "(nat \<times> nat \<times> nat) option" "string option"
      \<comment> \<open>total, success, failed, then unavailable, connection, general, and campaignId\<close>
  | CampaignStuck string int int
      \<comment> \<open>campaignId, timeSinceStart, timeSinceLastActivity\<close>

text \<open>A callback handed to \<^verbatim>\<open>setTimeout\<close>, with the time at which it is due.\<close>

datatype task = RunContinueCampaign string | RunInitializeWhatsAppClient

text \<open>
  One call of \<^verbatim>\<open>sendMessagesSequentially\<close>: its arguments, its loop variable \<^verbatim>\<open>i\<close>
  (\<open>pos\<close>), its local tallies, and the point where it is suspended. \<open>Validating\<close>: the
  pause check of iteration \<open>pos\<close> has passed and \<^verbatim>\<open>getState\<close> is awaited by the
  validation that opens the attempt. \<open>Sending\<close>: the validation has returned, and the
  wait before the send and the send are awaited. \<open>Delaying\<close>: the attempt of iteration
  \<open>pos\<close> was recorded as sent and the delay before the next message is awaited.
  \<open>Closing\<close>: the loop is over and the closing of the browser is awaited. \<open>Stopped\<close>:
  the call returned at a pause check. \<open>Completed\<close>: the call left the loop at the end
  of the list and returned its tallies.
\<close>

datatype phase = Validating | Sending | Delaying | Closing | Stopped | Completed

record delivery =
  cid :: "string option"
  numbers :: "string list"
  body :: string
  media :: "string option"
  startIndex :: nat
  delays :: string
  pos :: nat
  phase :: phase
  results :: "(string \<times> string \<times> string option) list"
  successCount :: nat
  failureCount :: nat

text \<open>
  The automation session, as far as the server looks at it: whether \<^verbatim>\<open>pupBrowser\<close>
  and \<^verbatim>\<open>pupPage\<close> are set, and what \<^verbatim>\<open>pupPage.isClosed()\<close> returns.
\<close>

record session =
  pupBrowser :: bool
  pupPage :: bool
  isClosed :: bool

text \<open>
  The module's variables, and four components that make its effects explicit: the
  clock, the events emitted, the timeouts set (each with the time at which it is due),
  and the calls of the delivery loop made so far (a call is addressed by its position
  in \<open>deliveries\<close>). An interval is modelled by whether it is armed. The life cycle of
  the session (its initialisation and its \<^verbatim>\<open>qr\<close>, \<^verbatim>\<open>authenticated\<close>, \<^verbatim>\<open>ready\<close> and
  \<^verbatim>\<open>disconnected\<close> events) belongs to the automation client and is not modelled; the
  timeout that starts a new session is recorded like any other.
\<close>

record server =
  client :: "session option"
  isClientReady :: bool
  isClientAuthenticated :: bool
  activeCampaigns :: "(string \<times> campaign) list"
  pausedCampaigns :: "(string \<times> campaign) list"
  keepAliveInterval :: bool
  connectionHealthCheckInterval :: bool
  campaignHealthInterval :: bool
  lastSuccessfulConnection :: int
  connectionFailureCount :: nat
  clock :: int
  emitted :: "event list"
  timers :: "(int \<times> task) list"
  deliveries :: "delivery list"

definition MAX_CONNECTION_FAILURES :: nat where
  "MAX_CONNECTION_FAILURES = 3"

definition emit :: "event \<Rightarrow> server \<Rightarrow> server" where
  "emit e s = s\<lparr>emitted := emitted s @ [e]\<rparr>"

definition setTimeout :: "task \<Rightarrow> int \<Rightarrow> server \<Rightarrow> server" where
  "setTimeout t delay s = s\<lparr>timers := timers s @ [(clock s + delay, t)]\<rparr>"

definition elapse :: "int \<Rightarrow> server \<Rightarrow> server" where
  \<comment> \<open>time passes while every call is suspended\<close>
  "elapse d s = s\<lparr>clock := clock s + d\<rparr>"

text \<open>
  The two pools are JavaScript \<^verbatim>\<open>Map\<close>s: \<^verbatim>\<open>get\<close> is \<^const>\<open>map_of\<close>, \<^verbatim>\<open>set\<close> is
  \<^const>\<open>AList.update\<close> (an existing key keeps its place, a new key goes to the end) and
  \<^verbatim>\<open>delete\<close> is \<^const>\<open>AList.delete\<close>; iteration follows the list.
\<close>

section \<open>Connection management\<close>

text \<open>
  \<^verbatim>\<open>forceReconnection\<close> stops the three intervals, resets the readiness flags and the
  failure counter, emits the status, destroys the session (whether \<^verbatim>\<open>destroy\<close> throws
  or not, \<^verbatim>\<open>client\<close> becomes \<^verbatim>\<open>null\<close>) and schedules the initialisation of a new one.
  It is taken as one step: \<^verbatim>\<open>destroy\<close> is taken to settle before anything else runs.
\<close>

definition forceReconnection :: "server \<Rightarrow> server" where
  "forceReconnection s =
     (let s1 = s\<lparr>keepAliveInterval := False, connectionHealthCheckInterval := False,
                  campaignHealthInterval := False\<rparr>;
          s2 = s1\<lparr>isClientReady := False, isClientAuthenticated := False,
                   connectionFailureCount := 0\<rparr>;
          s3 = emit (Status False False ''Connection lost, reconnecting...'') s2;
          s4 = s3\<lparr>client := None\<rparr>
      in setTimeout RunInitializeWhatsAppClient 5000 s4)"

text \<open>
  How a call of \<^verbatim>\<open>client.getState()\<close> ends: it rejects with a message, or it resolves
  with a state.
\<close>

datatype probe = StateThrows string | StateIs string

text \<open>
  \<^verbatim>\<open>validateConnection(strict)\<close> runs in two parts. The first part runs at once, in the
  same turn as its caller: it reads \<^verbatim>\<open>client\<close>, the two flags and the page, and either
  throws before its \<^verbatim>\<open>try\<close> block, or finds the page gone inside it, or calls
  \<^verbatim>\<open>getState\<close> and is suspended. The second part runs when \<^verbatim>\<open>getState\<close> has settled.
  An error thrown inside the \<^verbatim>\<open>try\<close> block passes through the \<^verbatim>\<open>catch\<close> block, which
  counts it in strict mode and forces the reconnection at the maximum. A result is the
  message of the error thrown, or \<open>None\<close> when the validation returns true.
\<close>

datatype reads = ThrownEarly string | PageGone | CallsGetState

definition validationBegins :: "server \<Rightarrow> reads" where
  "validationBegins s =
     (case client s of
        None \<Rightarrow> ThrownEarly ''WhatsApp client is not initialized''
      | Some sess \<Rightarrow>
          if \<not> isClientReady s \<or> \<not> isClientAuthenticated s
          then ThrownEarly ''WhatsApp client is not ready or authenticated''
          else if \<not> pupPage sess \<or> isClosed sess then PageGone
          else CallsGetState)"

definition validationCaught :: "bool \<Rightarrow> string \<Rightarrow> server \<Rightarrow> string option \<times> server" where
  \<comment> \<open>the \<^verbatim>\<open>catch\<close> block of \<^verbatim>\<open>validateConnection\<close>, which throws the error again\<close>
  "validationCaught strict err s =
     (if strict then
        (let s1 = s\<lparr>connectionFailureCount := connectionFailureCount s + 1\<rparr>
         in (Some err,
             if connectionFailureCount s1 \<ge> MAX_CONNECTION_FAILURES
             then forceReconnection s1 else s1))
      else (Some err, s))"

definition stateArrives :: "bool \<Rightarrow> probe \<Rightarrow> server \<Rightarrow> string option \<times> server" where
  \<comment> \<open>the rest of the \<^verbatim>\<open>try\<close> block, from the moment \<^verbatim>\<open>getState\<close> has settled\<close>
  "stateArrives strict p s =
     (case p of
        StateThrows err \<Rightarrow> validationCaught strict err s
      | StateIs st \<Rightarrow>
          if st \<noteq> ''CONNECTED'' \<and> strict
          then validationCaught strict (''Client state is '' @ st @ '', not CONNECTED'') s
          else (None, s\<lparr>lastSuccessfulConnection := clock s, connectionFailureCount := 0\<rparr>))"

definition validateConnection :: "bool \<Rightarrow> probe \<Rightarrow> server \<Rightarrow> string option \<times> server" where
  \<comment> \<open>a whole validation taken as one step, as the retry loop below takes it\<close>
  "validateConnection strict p s =
     (case validationBegins s of
        ThrownEarly err \<Rightarrow> (Some err, s)
      | PageGone \<Rightarrow> validationCaught strict ''Browser page is closed'' s
      | CallsGetState \<Rightarrow> stateArrives strict p s)"

definition keepAlive :: "probe \<Rightarrow> server \<Rightarrow> server" where
  \<comment> \<open>one run of the callback of \<^verbatim>\<open>startKeepAlive\<close>, every two minutes while armed\<close>
  "keepAlive p s =
     (if \<not> keepAliveInterval s then s
      else if client s \<noteq> None \<and> isClientReady s \<and> isClientAuthenticated s then
        (if p = StateIs ''CONNECTED''
         then s\<lparr>lastSuccessfulConnection := clock s, connectionFailureCount := 0\<rparr>
         else (let s1 = s\<lparr>connectionFailureCount := connectionFailureCount s + 1\<rparr>
               in if connectionFailureCount s1 \<ge> MAX_CONNECTION_FAILURES
                  then forceReconnection s1 else s1))
      else s)"

definition stuck :: "int \<Rightarrow> int \<Rightarrow> campaign \<Rightarrow> bool" where
  \<comment> \<open>the test of both monitors: not paused, and no activity for more than the threshold\<close>
  "stuck threshold now cs = (\<not> isPaused cs \<and> now - lastActivity cs > threshold)"

definition checkStuckCampaigns :: "server \<Rightarrow> server" where
  "checkStuckCampaigns s =
     (let now = clock s; stuckThreshold = 5 * 60 * 1000
      in fold (\<lambda>(k, cs) st.
            if stuck stuckThreshold now cs
            then setTimeout (RunContinueCampaign k) 2000
                   (emit (CampaignStuck k (now - startedAt cs) (now - lastActivity cs)) st)
            else st)
          (activeCampaigns s) s)"

definition connectionHealthCheck :: "probe \<Rightarrow> server \<Rightarrow> server" where
  \<comment> \<open>one run of the callback of \<^verbatim>\<open>startConnectionHealthCheck\<close>, every 30 seconds while armed\<close>
  "connectionHealthCheck p s =
     (if \<not> connectionHealthCheckInterval s then s
      else
        (let s1 =
           (if client s \<noteq> None \<and> isClientReady s \<and> isClientAuthenticated s
               \<and> clock s - lastSuccessfulConnection s > 10 * 60 * 1000
            then (case p of
                StateIs st \<Rightarrow> s\<lparr>lastSuccessfulConnection := clock s, connectionFailureCount := 0\<rparr>
              | StateThrows err \<Rightarrow> forceReconnection s)
            else s)
         in checkStuckCampaigns s1))"

definition campaignHealthMonitoring :: "server \<Rightarrow> server" where
  \<comment> \<open>one run of the callback of \<^verbatim>\<open>startCampaignHealthMonitoring\<close>, every five minutes while armed\<close>
  "campaignHealthMonitoring s =
     (if \<not> campaignHealthInterval s then s
      else
        (let now = clock s
         in fold (\<lambda>(k, cs) st.
               if stuck (10 * 60 * 1000) now cs
               then setTimeout (RunContinueCampaign k) 5000 st
               else st)
             (activeCampaigns s) s))"

section \<open>The delivery loop\<close>

text \<open>
  JavaScript runs the code between two suspensions of a call without interruption, and
  request handlers, timeouts and intervals run while a call of the delivery loop is
  suspended. A call of \<^verbatim>\<open>sendMessagesSequentially\<close> is therefore modelled by the steps
  between the points where it is suspended:
  \<^item> \<open>iterationTop\<close>: the loop test, the pause check, the write of the cursor and the
    first part of \<^verbatim>\<open>validateConnection\<close>. If that part throws, the \<^verbatim>\<open>catch\<close> block of the
    loop body and the next iteration follow in the same turn (awaiting a promise that
    is already rejected lets no request, timeout or interval in between), so one step
    can fail several recipients in a row.
  \<^item> \<open>validated\<close>: \<^verbatim>\<open>getState\<close> has settled, the validation ends; if it returns, the wait
    before the send is announced, otherwise the \<^verbatim>\<open>catch\<close> block of the loop body and
    the next iteration follow.
  \<^item> \<open>settle\<close>: the wait before the send is over and the sends of the attempt have
    settled; the retries (their delays, validations and sends) are taken to run with
    nothing in between; the outcome is recorded, and the loop either announces its
    delay or goes to the next iteration at once.
  \<^item> \<open>wake\<close>: the delay between two messages is over.
  \<^item> \<open>browserClosed\<close>: the closing of the browser after the loop has settled.

  \<^verbatim>\<open>sendMessageWithPuppeteer\<close> drives the browser; the loop sees only whether the call
  resolves or rejects, and with which message, and what the call does to the session
  itself is not modelled. Every awaited call is taken to settle. While the sends of one
  attempt are awaited the session decides how the k-th call of
  \<^verbatim>\<open>sendMessageWithPuppeteer\<close> ends, and how \<^verbatim>\<open>getState\<close> ends in the validation before
  the retry that follows the k-th call.
\<close>

datatype send_result = Resolved | Rejected string

datatype outcome = Delivered | Threw string

record world =
  sends :: "nat \<Rightarrow> send_result"
  atRetry :: "nat \<Rightarrow> probe"

definition maxAttempts :: nat where
  "maxAttempts = 3"

text \<open>
  The \<^verbatim>\<open>while\<close> loop around the send, entered with \<^verbatim>\<open>messageSent = false\<close> and
  \<^verbatim>\<open>shouldRetry = true\<close>. The result is how the loop is left and the final value of
  \<^verbatim>\<open>sendAttempts\<close>. A rejection classified as unavailable is rethrown at once; any other
  rejection is followed by a new validation and another attempt while attempts remain,
  and is rethrown otherwise. Leaving the loop without a throw leads to the code that
  records the recipient as sent.
\<close>

function sendWithRetries ::
  "(nat \<Rightarrow> send_result) \<Rightarrow> (nat \<Rightarrow> probe) \<Rightarrow> nat \<Rightarrow> server \<Rightarrow> (outcome \<times> nat) \<times> server" where
  "sendWithRetries snd_results retry_probes sendAttempts s =
     (if sendAttempts < maxAttempts then
        (case snd_results sendAttempts of
           Resolved \<Rightarrow> ((Delivered, sendAttempts + 1), s)
         | Rejected sendError \<Rightarrow>
             if isNumberUnavailableError sendError
             then ((Threw (''Number not available on WhatsApp: '' @ sendError),
                    sendAttempts + 1), s)
             else if sendAttempts + 1 < maxAttempts then
               (case validateConnection True (retry_probes sendAttempts) s of
                  (Some stateError, s') \<Rightarrow>
                    ((Threw ''WhatsApp client connection lost during retry'',
                      sendAttempts + 1), s')
                | (None, s') \<Rightarrow>
                    sendWithRetries snd_results retry_probes (sendAttempts + 1) s')
             else ((Threw sendError, sendAttempts + 1), s))
      else ((Delivered, sendAttempts), s))"
  by pat_completeness auto
termination
  by (relation "measure (\<lambda>(f, g, n, s). maxAttempts - n)") auto

declare sendWithRetries.simps [simp del]

definition progressOf :: "delivery \<Rightarrow> nat" where
  \<comment> \<open>\<^verbatim>\<open>currentIndex + 1\<close>, with \<^verbatim>\<open>currentIndex = startIndex + i\<close>\<close>
  "progressOf d = startIndex d + pos d + 1"

definition totalOf :: "delivery \<Rightarrow> nat" where
  \<comment> \<open>\<^verbatim>\<open>phoneNumbers.length + startIndex\<close>\<close>
  "totalOf d = length (numbers d) + startIndex d"

definition updateCampaign :: "string option \<Rightarrow> (campaign \<Rightarrow> campaign) \<Rightarrow> server \<Rightarrow> server" where
  \<comment> \<open>\<^verbatim>\<open>if (campaignId) { const campaignState = activeCampaigns.get(campaignId);
      if (campaignState) { ... } }\<close>: only a campaign of the active pool is updated\<close>
  "updateCampaign c f s =
     (case c of
        None \<Rightarrow> s
      | Some k \<Rightarrow>
          (case map_of (activeCampaigns s) k of
             None \<Rightarrow> s
           | Some cs \<Rightarrow> s\<lparr>activeCampaigns := AList.update k (f cs) (activeCampaigns s)\<rparr>))"

definition countStatus :: "string \<Rightarrow> delivery \<Rightarrow> nat" where
  "countStatus st d = length (filter (\<lambda>(n, st', e). st' = st) (results d))"

definition closeChromeBrowser :: "delivery \<Rightarrow> server \<Rightarrow> delivery \<times> server" where
  \<comment> \<open>up to its \<^verbatim>\<open>await\<close>: with a browser to close the call is suspended, otherwise it returns\<close>
  "closeChromeBrowser d s =
     (case client s of
        None \<Rightarrow> (d\<lparr>phase := Completed\<rparr>, s)
      | Some sess \<Rightarrow>
          if pupBrowser sess then (d\<lparr>phase := Closing\<rparr>, s) else (d\<lparr>phase := Completed\<rparr>, s))"

definition finish :: "delivery \<Rightarrow> server \<Rightarrow> delivery \<times> server" where
  \<comment> \<open>the code after the \<^verbatim>\<open>for\<close> loop. Without a campaign identifier the call returns to
      the upload handler, which emits the completion with its own two counters (both
      still 0) and closes the browser.\<close>
  "finish d s =
     (case cid d of
        None \<Rightarrow>
          closeChromeBrowser d (emit (BulkSendComplete (length (numbers d)) 0 0 None None) s)
      | Some k \<Rightarrow>
          (case map_of (activeCampaigns s) k of
             None \<Rightarrow> (d\<lparr>phase := Completed\<rparr>, s)
           | Some cs \<Rightarrow>
               (let s1 = s\<lparr>activeCampaigns := AList.delete k (activeCampaigns s)\<rparr>;
                    s2 = emit (BulkSendComplete (length (phoneNumbers cs)) (sentCount cs)
                           (failedCount cs)
                           (Some (countStatus ''unavailable'' d, countStatus ''connection'' d,
                                  countStatus ''failed'' d))
                           (Some k)) s1
                in closeChromeBrowser d s2)))"

definition pauseCheck :: "delivery \<Rightarrow> server \<Rightarrow> server option" where
  \<comment> \<open>the first statements of the loop body: \<open>None\<close> when the call returns because the
      campaign is not in the active pool or is paused, otherwise the state with the
      cursor written\<close>
  "pauseCheck d s =
     (case cid d of
        None \<Rightarrow> Some s
      | Some k \<Rightarrow>
          (case map_of (activeCampaigns s) k of
             None \<Rightarrow> None
           | Some cs \<Rightarrow>
               if isPaused cs then None
               else Some (s\<lparr>activeCampaigns :=
                              AList.update k (cs\<lparr>currentIndex := startIndex d + pos d\<rparr>)
                                (activeCampaigns s)\<rparr>)))"

definition recordThrown :: "string \<Rightarrow> delivery \<Rightarrow> server \<Rightarrow> delivery \<times> server" where
  \<comment> \<open>the \<^verbatim>\<open>catch\<close> block of the loop body, and \<^verbatim>\<open>i++\<close>\<close>
  "recordThrown err d s =
     (let phoneNumber = numbers d ! pos d;
          (errorCategory, errorMessage) = categorize err;
          d1 = d\<lparr>results := results d @ [(phoneNumber, errorCategory, Some errorMessage)],
                  failureCount := failureCount d + 1\<rparr>;
          s1 = updateCampaign (cid d)
                 (\<lambda>cs. cs\<lparr>failedCount := failedCount cs + 1, lastActivity := clock s\<rparr>) s;
          s2 = emit (MessageSent phoneNumber errorCategory (Some errorMessage)
                 (progressOf d) (totalOf d) (cid d)) s1
      in (d1\<lparr>pos := pos d + 1\<rparr>, s2))"

function iterationTop :: "delivery \<Rightarrow> server \<Rightarrow> delivery \<times> server" where
  "iterationTop d s =
     (if pos d < length (numbers d) then
        (case pauseCheck d s of
           None \<Rightarrow> (d\<lparr>phase := Stopped\<rparr>, s)
         | Some s1 \<Rightarrow>
             (case validationBegins s1 of
                CallsGetState \<Rightarrow> (d\<lparr>phase := Validating\<rparr>, s1)
              | ThrownEarly err \<Rightarrow>
                  iterationTop (fst (recordThrown err d s1)) (snd (recordThrown err d s1))
              | PageGone \<Rightarrow>
                  (let s2 = snd (validationCaught True ''Browser page is closed'' s1)
                   in iterationTop (fst (recordThrown ''Browser page is closed'' d s2))
                        (snd (recordThrown ''Browser page is closed'' d s2)))))
      else finish d s)"
  by pat_completeness auto
termination
  by (relation "measure (\<lambda>(d, s). length (numbers d) - pos d)")
    (auto simp add: recordThrown_def Let_def case_prod_beta)

declare iterationTop.simps [simp del]

definition afterThrown :: "string \<Rightarrow> delivery \<Rightarrow> server \<Rightarrow> delivery \<times> server" where
  \<comment> \<open>an error reaches the \<^verbatim>\<open>catch\<close> block of the loop body; nothing is awaited before
      the next iteration\<close>
  "afterThrown err d s =
     iterationTop (fst (recordThrown err d s)) (snd (recordThrown err d s))"

definition afterSent :: "delivery \<Rightarrow> server \<Rightarrow> delivery \<times> server" where
  \<comment> \<open>the rest of the \<^verbatim>\<open>try\<close> block; the delay is awaited unless this was the last number
      (\<^verbatim>\<open>i < phoneNumbers.length - 1\<close>)\<close>
  "afterSent d s =
     (let phoneNumber = numbers d ! pos d;
          d1 = d\<lparr>results := results d @ [(phoneNumber, ''sent'', None)],
                  successCount := successCount d + 1\<rparr>;
          s1 = updateCampaign (cid d)
                 (\<lambda>cs. cs\<lparr>sentCount := sentCount cs + 1, lastActivity := clock s\<rparr>) s;
          s2 = emit (MessageSent phoneNumber ''sent'' None (progressOf d) (totalOf d) (cid d)) s1
      in if pos d + 1 < length (numbers d)
         then (d1\<lparr>phase := Delaying\<rparr>,
               emit (HumanBehavior phoneNumber ''human_delay'' (progressOf d) (totalOf d) (cid d)) s2)
         else iterationTop (d1\<lparr>pos := pos d + 1\<rparr>) s2)"

definition store :: "nat \<Rightarrow> delivery \<times> server \<Rightarrow> server" where
  "store n ds = (snd ds)\<lparr>deliveries := (deliveries (snd ds))[n := fst ds]\<rparr>"

definition validated :: "probe \<Rightarrow> nat \<Rightarrow> server \<Rightarrow> server" where
  \<comment> \<open>\<^verbatim>\<open>getState\<close>, awaited by the validation at the start of the iteration of call \<open>n\<close>,
      settles; when the validation returns, the wait before the send is announced
      unless this is the first message of the call\<close>
  "validated p n s =
     (if n < length (deliveries s) then
        (let d = deliveries s ! n in
         if phase d = Validating \<and> pos d < length (numbers d) then
           (case stateArrives True p s of
              (Some err, s1) \<Rightarrow> store n (afterThrown err d s1)
            | (None, s1) \<Rightarrow>
                store n
                  (d\<lparr>phase := Sending\<rparr>,
                   if pos d > 0 \<or> startIndex d > 0
                   then emit (HumanBehavior (numbers d ! pos d) ''waiting'' (progressOf d)
                                (totalOf d) (cid d)) s1
                   else s1))
         else s)
      else s)"

definition settle :: "world \<Rightarrow> nat \<Rightarrow> server \<Rightarrow> server" where
  \<comment> \<open>the sends awaited by call \<open>n\<close> settle, and the call runs to its next suspension\<close>
  "settle w n s =
     (if n < length (deliveries s) then
        (let d = deliveries s ! n in
         if phase d = Sending \<and> pos d < length (numbers d) then
           (case sendWithRetries (sends w) (atRetry w) 0 s of
              ((Delivered, k), s1) \<Rightarrow> store n (afterSent d s1)
            | ((Threw err, k), s1) \<Rightarrow> store n (afterThrown err d s1))
         else s)
      else s)"

definition wake :: "nat \<Rightarrow> server \<Rightarrow> server" where
  \<comment> \<open>the delay awaited by call \<open>n\<close> is over: \<^verbatim>\<open>i++\<close> and the next iteration\<close>
  "wake n s =
     (if n < length (deliveries s) then
        (let d = deliveries s ! n in
         if phase d = Delaying then store n (iterationTop (d\<lparr>pos := pos d + 1\<rparr>) s) else s)
      else s)"


definition sendMessagesSequentially ::
  "string list \<Rightarrow> string \<Rightarrow> string option \<Rightarrow> nat \<Rightarrow> string \<Rightarrow> string option \<Rightarrow> server \<Rightarrow> server" where
  \<comment> \<open>a call, up to its first \<^verbatim>\<open>await\<close>: the new call takes the next free position\<close>
  "sendMessagesSequentially nums msg c start dr mf s =
     (let d = \<lparr>cid = c, numbers = nums, body = msg, media = mf, startIndex = start,
                delays = dr, pos = 0, phase = Validating, results = [], successCount = 0,
                failureCount = 0\<rparr>;
          s1 = s\<lparr>deliveries := deliveries s @ [d]\<rparr>
      in store (length (deliveries s)) (iterationTop d s1))"

definition continueCampaign :: "string \<Rightarrow> server \<Rightarrow> server" where
  \<comment> \<open>the delivery loop is called with the whole list and the start index 0\<close>
  "continueCampaign k s =
     (case map_of (activeCampaigns s) k of
        None \<Rightarrow> s
      | Some cs \<Rightarrow>
          if isPaused cs then s
          else if \<not> isClientReady s \<or> \<not> isClientAuthenticated s
            then setTimeout (RunContinueCampaign k) 5000 s
          else
            (let allPhoneNumbers = phoneNumbers cs;
                 s1 = emit (BulkSendStart (length (phoneNumbers cs)) (Some k)
                        (Some (length allPhoneNumbers, sentCount cs, failedCount cs))) s
             in sendMessagesSequentially allPhoneNumbers (message cs) (Some k) 0
                  (if delayRange cs = [] then ''1800-3600'' else delayRange cs)
                  (mediaFile cs) s1))"

section \<open>The request handlers\<close>

text \<open>
  A handler returns the HTTP status of its response and the new state. A request field
  that is absent is the empty string, which JavaScript treats as absent too.
\<close>

definition postCampaignPause :: "string \<Rightarrow> server \<Rightarrow> nat \<times> server" where
  \<comment> \<open>\<^verbatim>\<open>POST /api/campaign/pause\<close>\<close>
  "postCampaignPause k s =
     (if k = [] then (400, s)
      else case map_of (activeCampaigns s) k of
        None \<Rightarrow> (404, s)
      | Some cs \<Rightarrow>
          (let campaignState = cs\<lparr>isPaused := True, pausedAt := Some (clock s)\<rparr>
           in (200, s\<lparr>pausedCampaigns := AList.update k campaignState (pausedCampaigns s),
                       activeCampaigns := AList.delete k (activeCampaigns s)\<rparr>)))"

definition getPendingPhoneNumbers :: "(string \<Rightarrow> server \<Rightarrow> string list) option" where
  \<comment> \<open>what the name \<^verbatim>\<open>getPendingPhoneNumbers\<close> is bound to in the server's file: the file
      neither declares nor imports it (its comments say that no tracking of pending
      numbers is needed), so the name is unbound and evaluating it throws a
      ReferenceError\<close>
  "getPendingPhoneNumbers = None"

definition postCampaignResume :: "string \<Rightarrow> server \<Rightarrow> nat \<times> server" where
  \<comment> \<open>\<^verbatim>\<open>POST /api/campaign/resume\<close>; the ReferenceError is caught by the handler's own
      \<^verbatim>\<open>catch\<close>, which answers 500\<close>
  "postCampaignResume k s =
     (if k = [] then (400, s)
      else case map_of (pausedCampaigns s) k of
        None \<Rightarrow> (404, s)
      | Some cs \<Rightarrow>
          (let campaignState = cs\<lparr>isPaused := False, resumedAt := Some (clock s),
                                   lastActivity := clock s\<rparr>;
               s1 = s\<lparr>activeCampaigns := AList.update k campaignState (activeCampaigns s),
                       pausedCampaigns := AList.delete k (pausedCampaigns s)\<rparr>
           in case getPendingPhoneNumbers of
                None \<Rightarrow> (500, s1)
              | Some pending \<Rightarrow> (200, continueCampaign k s1)))"


text \<open>
  \<^verbatim>\<open>POST /api/upload-and-send\<close> for a text message. The request carries the lines of the
  phone number field, trimmed and without the empty ones; the handler validates them
  row by row and keeps the canonical addresses.
\<close>

fun validateRows :: "nat \<Rightarrow> string list \<Rightarrow> string list" where
  "validateRows i [] = []"
| "validateRows i (x # xs) =
     (case validateAndFormatPhoneNumber x i of
        None \<Rightarrow> validateRows (Suc i) xs
      | Some formattedNumber \<Rightarrow> formattedNumber # validateRows (Suc i) xs)"

record submission =
  campaignIdField :: string
  phoneNumbersList :: "string list"
  messageField :: string
  delayRangeField :: string

definition newCampaign :: "string \<Rightarrow> string list \<Rightarrow> string \<Rightarrow> string \<Rightarrow> int \<Rightarrow> campaign" where
  "newCampaign k nums msg dr now =
     \<lparr>campaignId = k, phoneNumbers = nums, message = msg, mediaFile = None,
      fileType = ''text'', delayRange = dr, currentIndex = 0, sentCount = 0,
      failedCount = 0, isPaused = False, createdAt = now, startedAt = now,
      lastActivity = now, pausedAt = None, resumedAt = None\<rparr>"

definition postUploadAndSend :: "submission \<Rightarrow> server \<Rightarrow> nat \<times> server" where
  \<comment> \<open>with a campaign identifier the campaign is stored in the active pool and its start
      is scheduled two seconds later; without one the handler calls the delivery loop
      itself and answers when the call has returned\<close>
  "postUploadAndSend r s =
     (if \<not> isClientReady s \<and> \<not> isClientAuthenticated s then (400, s)
      else if client s = None then (400, s)
      else
        (let msg = (if messageField r = []
                    then ''Hello! This is a message from WhatsApp Bulk Sender.''
                    else messageField r);
             dr = (if delayRangeField r = [] then ''1800-3600'' else delayRangeField r);
             nums = validateRows 0 (phoneNumbersList r)
         in if nums = [] then (400, s)
            else if campaignIdField r \<noteq> [] then
              (let k = campaignIdField r;
                   s1 = s\<lparr>activeCampaigns :=
                           AList.update k (newCampaign k nums msg dr (clock s))
                             (activeCampaigns s)\<rparr>;
                   s2 = emit (BulkSendStart (length nums) (Some k) None) s1
               in (200, setTimeout (RunContinueCampaign k) 2000 s2))
            else
              (200, sendMessagesSequentially nums msg None 0 dr None
                      (emit (BulkSendStart (length nums) None None) s))))"

section \<open>An execution with a pause, a resume and a stuck check\<close>

text \<open>
  The states of one execution, named for the theorems below. The server starts with a
  ready, authenticated session and its three intervals armed; every validation finds the
  session connected and every send resolves.
\<close>

definition readyServer :: server where
  "readyServer =
     \<lparr>client = Some \<lparr>pupBrowser = True, pupPage = True, isClosed = False\<rparr>,
      isClientReady = True, isClientAuthenticated = True, activeCampaigns = [],
      pausedCampaigns = [], keepAliveInterval = True, connectionHealthCheckInterval = True,
      campaignHealthInterval = True, lastSuccessfulConnection = 0,
      connectionFailureCount = 0, clock = 0, emitted = [], timers = [], deliveries = []\<rparr>"

definition connected :: world where
  "connected = \<lparr>sends = (\<lambda>k. Resolved), atRetry = (\<lambda>k. StateIs ''CONNECTED'')\<rparr>"

definition twoNumbers :: submission where
  "twoNumbers =
     \<lparr>campaignIdField = ''campaign_1'', phoneNumbersList = [''9876543210'', ''9876543211''],
      messageField = ''hello'', delayRangeField = ''30-60''\<rparr>"

definition uploaded :: server where
  \<comment> \<open>a campaign of two recipients is submitted\<close>
  "uploaded = snd (postUploadAndSend twoNumbers readyServer)"

definition begun :: server where
  \<comment> \<open>two seconds later the timeout of the upload handler calls \<^verbatim>\<open>continueCampaign\<close>;
      the new call awaits its first validation\<close>
  "begun = continueCampaign ''campaign_1'' (elapse 2000 uploaded)"

definition started :: server where
  \<comment> \<open>the validation returns; the send to the first recipient is awaited\<close>
  "started = validated (StateIs ''CONNECTED'') 0 begun"

definition firstSent :: server where
  \<comment> \<open>the send to the first recipient resolves; the loop awaits the delay\<close>
  "firstSent = settle connected 0 started"

definition paused :: server where
  \<comment> \<open>the campaign is paused during that delay, one recipient processed\<close>
  "paused = snd (postCampaignPause ''campaign_1'' firstSent)"

definition stopped :: server where
  \<comment> \<open>the delay ends and the loop returns at its pause check\<close>
  "stopped = wake 0 paused"

definition resumed :: server where
  \<comment> \<open>the campaign is resumed\<close>
  "resumed = snd (postCampaignResume ''campaign_1'' stopped)"

definition checked :: server where
  \<comment> \<open>five minutes and a second later the connection health check runs\<close>
  "checked = connectionHealthCheck (StateIs ''CONNECTED'') (elapse 301000 resumed)"

definition restarted :: server where
  \<comment> \<open>two seconds later the timeout of the stuck check calls \<^verbatim>\<open>continueCampaign\<close>, and
      the validation of the new call returns\<close>
  "restarted =
     validated (StateIs ''CONNECTED'') 1 (continueCampaign ''campaign_1'' (elapse 2000 checked))"

definition resent :: server where
  \<comment> \<open>the send awaited by the new call resolves\<close>
  "resent = settle connected 1 restarted"

definition secondBegun :: server where
  \<comment> \<open>the delay ends, and the validation for the second recipient returns\<close>
  "secondBegun = validated (StateIs ''CONNECTED'') 1 (wake 1 resent)"

definition lastSent :: server where
  \<comment> \<open>the send to the second recipient resolves\<close>
  "lastSent = settle connected 1 secondBegun"

text \<open>
  Four other continuations of the same execution. In the first the stuck check runs
  again 30 seconds after its first run, while the send of the restarted call is still
  awaited. In the second a second campaign is submitted while the first one is being
  sent. In the third the campaign is paused while the send to its first recipient is
  awaited, and that send is then rejected. In the fourth the campaign is paused while
  the send to its first recipient is awaited, a new campaign is submitted under the
  same identifier, and the call of the paused campaign goes on.
\<close>

definition checkedAgain :: server where
  "checkedAgain = connectionHealthCheck (StateIs ''CONNECTED'') (elapse 28000 restarted)"

definition restartedAgain :: server where
  "restartedAgain =
     validated (StateIs ''CONNECTED'') 2
       (continueCampaign ''campaign_1'' (elapse 2000 checkedAgain))"




definition rejecting :: world where
  "rejecting =
     \<lparr>sends = (\<lambda>k. Rejected ''Evaluation failed''),
      atRetry = (\<lambda>k. StateIs ''CONNECTED'')\<rparr>"


definition pausedMidSend :: server where
  "pausedMidSend = snd (postCampaignPause ''campaign_1'' started)"

definition failedWhilePaused :: server where
  "failedWhilePaused = settle rejecting 0 pausedMidSend"





section \<open>Properties of the validator\<close>

lemmas char_class_defs =
  is_digit_def is_letter_def is_space_def is_separator_def strip_separators_def
  has_letter_def all_digits_def

lemma validate_ten_digits:
  "validateAndFormatPhoneNumber ''9876543210'' rowIndex = Some ''919876543210@c.us''"
  by (simp add: validateAndFormatPhoneNumber_def char_class_defs)

lemma validate_plus_prefixed:
  "validateAndFormatPhoneNumber ''+919876543210'' rowIndex = Some ''919876543210@c.us''"
  by (simp add: validateAndFormatPhoneNumber_def char_class_defs)

lemma validate_letters:
  "validateAndFormatPhoneNumber ''abc'' rowIndex = None"
  by (simp add: validateAndFormatPhoneNumber_def char_class_defs)

lemma validate_too_short:
  "validateAndFormatPhoneNumber ''12345'' rowIndex = None"
  by (simp add: validateAndFormatPhoneNumber_def char_class_defs)

lemma validate_header:
  "validateAndFormatPhoneNumber ''Phone Number'' 0 = None"
  by (simp add: validateAndFormatPhoneNumber_def char_class_defs)

text \<open>
  Claim C6. The validator maps \<^verbatim>\<open>"9876543210"\<close>, at any row index, to the canonical
  form with the default country prefix 91 and the suffix \<^verbatim>\<open>@c.us\<close>; maps
  \<^verbatim>\<open>"+919876543210"\<close> to the same canonical form, the leading plus sign stripped;
  returns null for \<^verbatim>\<open>"abc"\<close> and for the too short \<^verbatim>\<open>"12345"\<close> at any row index;
  and returns null for the value \<^verbatim>\<open>"Phone Number"\<close> in row 0, a header.
\<close>

theorem validator_examples:
  "validateAndFormatPhoneNumber ''9876543210'' rowIndex = Some ''919876543210@c.us'' \<and>
   validateAndFormatPhoneNumber ''+919876543210'' rowIndex = Some ''919876543210@c.us'' \<and>
   validateAndFormatPhoneNumber ''abc'' rowIndex = None \<and>
   validateAndFormatPhoneNumber ''12345'' rowIndex = None \<and>
   validateAndFormatPhoneNumber ''Phone Number'' 0 = None"
  using validate_ten_digits validate_plus_prefixed validate_letters validate_too_short
    validate_header
  by simp

section \<open>What the small operations leave alone\<close>

lemma emit_frame [simp]:
  "activeCampaigns (emit e s) = activeCampaigns s"
  "pausedCampaigns (emit e s) = pausedCampaigns s"
  "deliveries (emit e s) = deliveries s"
  "timers (emit e s) = timers s"
  "clock (emit e s) = clock s"
  "client (emit e s) = client s"
  "isClientReady (emit e s) = isClientReady s"
  "isClientAuthenticated (emit e s) = isClientAuthenticated s"
  "connectionFailureCount (emit e s) = connectionFailureCount s"
  "emitted (emit e s) = emitted s @ [e]"
  by (simp_all add: emit_def)

lemma setTimeout_frame [simp]:
  "activeCampaigns (setTimeout t d s) = activeCampaigns s"
  "pausedCampaigns (setTimeout t d s) = pausedCampaigns s"
  "deliveries (setTimeout t d s) = deliveries s"
  "emitted (setTimeout t d s) = emitted s"
  "clock (setTimeout t d s) = clock s"
  "client (setTimeout t d s) = client s"
  "isClientReady (setTimeout t d s) = isClientReady s"
  "isClientAuthenticated (setTimeout t d s) = isClientAuthenticated s"
  "connectionFailureCount (setTimeout t d s) = connectionFailureCount s"
  "timers (setTimeout t d s) = timers s @ [(clock s + d, t)]"
  by (simp_all add: setTimeout_def)

lemma elapse_frame [simp]:
  "activeCampaigns (elapse d s) = activeCampaigns s"
  "pausedCampaigns (elapse d s) = pausedCampaigns s"
  "deliveries (elapse d s) = deliveries s"
  "emitted (elapse d s) = emitted s"
  "timers (elapse d s) = timers s"
  "clock (elapse d s) = clock s + d"
  by (simp_all add: elapse_def)

lemma forceReconnection_frame [simp]:
  "activeCampaigns (forceReconnection s) = activeCampaigns s"
  "pausedCampaigns (forceReconnection s) = pausedCampaigns s"
  "deliveries (forceReconnection s) = deliveries s"
  "clock (forceReconnection s) = clock s"
  "client (forceReconnection s) = None"
  "isClientReady (forceReconnection s) = False"
  "isClientAuthenticated (forceReconnection s) = False"
  by (simp_all add: forceReconnection_def Let_def)

lemma keepAlive_frame:
  "activeCampaigns (keepAlive p s) = activeCampaigns s \<and>
   pausedCampaigns (keepAlive p s) = pausedCampaigns s"
  by (simp add: keepAlive_def Let_def)

section \<open>Forced reconnection\<close>

text \<open>
  Claim C10. When the consecutive connection-failure counter reaches the fixed maximum
  of 3 and the forced reconnection runs, it resets the readiness flags (ready,
  authenticated) and destroys the session, and leaves the active and the paused
  campaign stores unchanged: every stored campaign, with its recipient list, counters,
  cursor and pause flag, is the same before and after \<^verbatim>\<open>forceReconnection\<close>. The
  keep-alive callback changes neither store, whatever it finds, and with the interval
  armed, a ready and authenticated session, a check that does not find the session
  connected and a counter that reaches the maximum with this failure, the callback is
  the forced reconnection.
\<close>

theorem forced_reconnection_keeps_campaigns:
  "activeCampaigns (forceReconnection s) = activeCampaigns s \<and>
   pausedCampaigns (forceReconnection s) = pausedCampaigns s \<and>
   \<not> isClientReady (forceReconnection s) \<and>
   \<not> isClientAuthenticated (forceReconnection s) \<and>
   client (forceReconnection s) = None \<and>
   activeCampaigns (keepAlive p s) = activeCampaigns s \<and>
   pausedCampaigns (keepAlive p s) = pausedCampaigns s \<and>
   (keepAliveInterval s \<and> client s \<noteq> None \<and> isClientReady s \<and> isClientAuthenticated s \<and>
    p \<noteq> StateIs ''CONNECTED'' \<and> connectionFailureCount s + 1 \<ge> MAX_CONNECTION_FAILURES \<longrightarrow>
      keepAlive p s =
        forceReconnection (s\<lparr>connectionFailureCount := connectionFailureCount s + 1\<rparr>))"
  using keepAlive_frame [of p s] by (simp add: keepAlive_def Let_def)

text \<open>
  The witness: the campaign of the execution above is in the active pool, two
  keep-alive checks have failed, and the third finds the session disconnected.
\<close>

theorem forced_reconnection_keeps_campaigns_witness:
  "keepAliveInterval (resumed\<lparr>connectionFailureCount := 2\<rparr>) \<and>
   client (resumed\<lparr>connectionFailureCount := 2\<rparr>) \<noteq> None \<and>
   isClientReady (resumed\<lparr>connectionFailureCount := 2\<rparr>) \<and>
   isClientAuthenticated (resumed\<lparr>connectionFailureCount := 2\<rparr>) \<and>
   StateIs ''DISCONNECTED'' \<noteq> StateIs ''CONNECTED'' \<and>
   connectionFailureCount (resumed\<lparr>connectionFailureCount := 2\<rparr>) + 1 \<ge> MAX_CONNECTION_FAILURES \<and>
   keepAlive (StateIs ''DISCONNECTED'') (resumed\<lparr>connectionFailureCount := 2\<rparr>) =
     forceReconnection (resumed\<lparr>connectionFailureCount := 3\<rparr>) \<and>
   activeCampaigns (keepAlive (StateIs ''DISCONNECTED'') (resumed\<lparr>connectionFailureCount := 2\<rparr>)) =
     activeCampaigns resumed \<and>
   map fst (activeCampaigns resumed) = [''campaign_1''] \<and>
   client (keepAlive (StateIs ''DISCONNECTED'') (resumed\<lparr>connectionFailureCount := 2\<rparr>)) = None"
proof -
  have h: "keepAliveInterval (resumed\<lparr>connectionFailureCount := 2\<rparr>) \<and>
     client (resumed\<lparr>connectionFailureCount := 2\<rparr>) \<noteq> None \<and>
     isClientReady (resumed\<lparr>connectionFailureCount := 2\<rparr>) \<and>
     isClientAuthenticated (resumed\<lparr>connectionFailureCount := 2\<rparr>) \<and>
     StateIs ''DISCONNECTED'' \<noteq> StateIs ''CONNECTED'' \<and>
     connectionFailureCount (resumed\<lparr>connectionFailureCount := 2\<rparr>) + 1 \<ge> MAX_CONNECTION_FAILURES"
    by code_simp
  have ids: "map fst (activeCampaigns resumed) = [''campaign_1'']"
    by code_simp
  show ?thesis
    using h ids
      forced_reconnection_keeps_campaigns
        [of "resumed\<lparr>connectionFailureCount := 2\<rparr>" "StateIs ''DISCONNECTED''"]
    by simp
qed

section \<open>The resume handler\<close>

text \<open>
  Claim C3. For every resume request on a campaign of the paused pool, the handler
  first clears the campaign's \<^verbatim>\<open>isPaused\<close> flag and moves it from the paused pool into
  the active pool, and then calls \<^verbatim>\<open>getPendingPhoneNumbers\<close>, which the server's file
  does not define: the handler throws and answers with HTTP status 500, while the move
  between the pools has taken effect and the delivery loop is not called again (no
  call is added, no timeout is set, nothing is emitted). On this error the state is
  not left as it was.
\<close>

theorem resume_moves_then_fails:
  assumes "k \<noteq> []" and "map_of (pausedCampaigns s) k = Some cs"
  shows "fst (postCampaignResume k s) = 500 \<and>
     map_of (activeCampaigns (snd (postCampaignResume k s))) k =
       Some (cs\<lparr>isPaused := False, resumedAt := Some (clock s), lastActivity := clock s\<rparr>) \<and>
     map_of (pausedCampaigns (snd (postCampaignResume k s))) k = None \<and>
     deliveries (snd (postCampaignResume k s)) = deliveries s \<and>
     timers (snd (postCampaignResume k s)) = timers s \<and>
     emitted (snd (postCampaignResume k s)) = emitted s \<and>
     snd (postCampaignResume k s) \<noteq> s"
proof -
  have gone: "map_of (pausedCampaigns (snd (postCampaignResume k s))) k = None"
    using assms
    by (simp add: postCampaignResume_def getPendingPhoneNumbers_def Let_def delete_conv')
  have "snd (postCampaignResume k s) \<noteq> s"
  proof
    assume "snd (postCampaignResume k s) = s"
    with gone have "map_of (pausedCampaigns s) k = None" by simp
    with assms(2) show False by simp
  qed
  with gone assms show ?thesis
    by (simp add: postCampaignResume_def getPendingPhoneNumbers_def Let_def update_conv')
qed

text \<open>
  The witness: the campaign paused after its first recipient, in the execution above.
\<close>

theorem resume_moves_then_fails_witness:
  "''campaign_1'' \<noteq> [] \<and>
   map_of (pausedCampaigns stopped) ''campaign_1'' =
     Some ((newCampaign ''campaign_1'' [''919876543210@c.us'', ''919876543211@c.us'']
              ''hello'' ''30-60'' 0)
            \<lparr>sentCount := 1, lastActivity := 2000, isPaused := True, pausedAt := Some 2000\<rparr>) \<and>
   fst (postCampaignResume ''campaign_1'' stopped) = 500 \<and>
   map_of (pausedCampaigns (snd (postCampaignResume ''campaign_1'' stopped))) ''campaign_1'' = None \<and>
   deliveries (snd (postCampaignResume ''campaign_1'' stopped)) = deliveries stopped \<and>
   snd (postCampaignResume ''campaign_1'' stopped) \<noteq> stopped"
proof -
  have h1: "''campaign_1'' \<noteq> []"
    by simp
  have h2: "map_of (pausedCampaigns stopped) ''campaign_1'' =
     Some ((newCampaign ''campaign_1'' [''919876543210@c.us'', ''919876543211@c.us'']
              ''hello'' ''30-60'' 0)
            \<lparr>sentCount := 1, lastActivity := 2000, isPaused := True, pausedAt := Some 2000\<rparr>)"
    by code_simp
  show ?thesis
    using h2 resume_moves_then_fails [OF h1 h2] by simp
qed

section \<open>The stuck check\<close>

lemma stuck_later: "stuck th now cs \<Longrightarrow> now \<le> now' \<Longrightarrow> stuck th now' cs"
  by (simp add: stuck_def)

lemma stuck_fold:
  "fold (\<lambda>(k, cs) st.
            if stuck th now cs
            then setTimeout (RunContinueCampaign k) 2000
                   (emit (CampaignStuck k (now - startedAt cs) (now - lastActivity cs)) st)
            else st) xs st0 = st1 \<Longrightarrow>
   activeCampaigns st1 = activeCampaigns st0 \<and> pausedCampaigns st1 = pausedCampaigns st0 \<and>
   deliveries st1 = deliveries st0 \<and> clock st1 = clock st0 \<and>
   timers st1 = timers st0 @
     map (\<lambda>(k, cs). (clock st0 + 2000, RunContinueCampaign k))
       (filter (\<lambda>(k, cs). stuck th now cs) xs)"
proof (induction xs arbitrary: st0)
  case Nil
  then show ?case by auto
next
  case (Cons x xs)
  then show ?case by (cases x) (auto split: if_splits)
qed

lemma checkStuck_frame:
  "activeCampaigns (checkStuckCampaigns s) = activeCampaigns s \<and>
   pausedCampaigns (checkStuckCampaigns s) = pausedCampaigns s \<and>
   deliveries (checkStuckCampaigns s) = deliveries s \<and>
   clock (checkStuckCampaigns s) = clock s \<and>
   timers (checkStuckCampaigns s) = timers s @
     map (\<lambda>(k, cs). (clock s + 2000, RunContinueCampaign k))
       (filter (\<lambda>(k, cs). stuck (5 * 60 * 1000) (clock s) cs) (activeCampaigns s))"
  using stuck_fold [OF refl, of "5 * 60 * 1000" "clock s" "activeCampaigns s" s]
  by (simp add: checkStuckCampaigns_def Let_def)

lemma checkStuck_schedules:
  assumes "(k, cs) \<in> set (activeCampaigns s)" and "stuck (5 * 60 * 1000) (clock s) cs"
  shows "(clock s + 2000, RunContinueCampaign k) \<in> set (timers (checkStuckCampaigns s))"
proof -
  from assms have "(k, cs) \<in>
      set (filter (\<lambda>(k, cs). stuck (5 * 60 * 1000) (clock s) cs) (activeCampaigns s))"
    by simp
  then have "(clock s + 2000, RunContinueCampaign k) \<in>
      set (map (\<lambda>(k, cs). (clock s + 2000, RunContinueCampaign k))
       (filter (\<lambda>(k, cs). stuck (5 * 60 * 1000) (clock s) cs) (activeCampaigns s)))"
    by (force simp del: set_filter filter_set)
  then show ?thesis
    using checkStuck_frame [of s] by simp
qed

lemma monitor_fold:
  "fold (\<lambda>(k, cs) st.
            if stuck th now cs then setTimeout (RunContinueCampaign k) 5000 st else st)
      xs st0 = st1 \<Longrightarrow>
   activeCampaigns st1 = activeCampaigns st0 \<and> pausedCampaigns st1 = pausedCampaigns st0 \<and>
   deliveries st1 = deliveries st0 \<and> clock st1 = clock st0 \<and>
   timers st1 = timers st0 @
     map (\<lambda>(k, cs). (clock st0 + 5000, RunContinueCampaign k))
       (filter (\<lambda>(k, cs). stuck th now cs) xs)"
proof (induction xs arbitrary: st0)
  case Nil
  then show ?case by auto
next
  case (Cons x xs)
  then show ?case by (cases x) (auto split: if_splits)
qed

lemma monitor_frame:
  "campaignHealthInterval s \<Longrightarrow>
   activeCampaigns (campaignHealthMonitoring s) = activeCampaigns s \<and>
   pausedCampaigns (campaignHealthMonitoring s) = pausedCampaigns s \<and>
   deliveries (campaignHealthMonitoring s) = deliveries s \<and>
   timers (campaignHealthMonitoring s) = timers s @
     map (\<lambda>(k, cs). (clock s + 5000, RunContinueCampaign k))
       (filter (\<lambda>(k, cs). stuck (10 * 60 * 1000) (clock s) cs) (activeCampaigns s))"
  using monitor_fold [OF refl, of "10 * 60 * 1000" "clock s" "activeCampaigns s" s]
  by (simp add: campaignHealthMonitoring_def Let_def)

lemma monitor_schedules:
  assumes "(k, cs) \<in> set (activeCampaigns s)" and "stuck (10 * 60 * 1000) (clock s) cs"
    and "campaignHealthInterval s"
  shows "(clock s + 5000, RunContinueCampaign k) \<in> set (timers (campaignHealthMonitoring s))"
proof -
  from assms have "(k, cs) \<in>
      set (filter (\<lambda>(k, cs). stuck (10 * 60 * 1000) (clock s) cs) (activeCampaigns s))"
    by simp
  then have "(clock s + 5000, RunContinueCampaign k) \<in>
      set (map (\<lambda>(k, cs). (clock s + 5000, RunContinueCampaign k))
       (filter (\<lambda>(k, cs). stuck (10 * 60 * 1000) (clock s) cs) (activeCampaigns s)))"
    by (force simp del: set_filter filter_set)
  then show ?thesis
    using monitor_frame [OF assms(3)] by simp
qed

lemma healthCheck_runs_stuck_check:
  "connectionHealthCheckInterval s \<Longrightarrow>
   clock s - lastSuccessfulConnection s \<le> 10 * 60 * 1000 \<Longrightarrow>
   connectionHealthCheck p s = checkStuckCampaigns s"
  by (simp add: connectionHealthCheck_def Let_def)

text \<open>
  Claim C8, as the code has it. Every run of the stuck check schedules one restart
  (a call of \<^verbatim>\<open>continueCampaign\<close> two seconds later) for each unpaused campaign of the
  active pool whose last activity lies more than five minutes back, and changes no
  campaign and no call of the delivery loop. The check keeps no record of the restarts
  it has scheduled and does not touch \<^verbatim>\<open>lastActivity\<close>: a campaign that is stale at one
  run is stale at any later run that finds it unchanged, and that run schedules
  another restart. The stuck check is what the connection health check does every 30
  seconds while its interval is armed and the last successful connection is not older
  than ten minutes; the five-minute campaign monitor schedules a restart of its own,
  five seconds later, for a campaign without activity for more than ten minutes, and
  changes no campaign either.
\<close>

theorem stuck_check_restarts_on_every_run:
  assumes "(k, cs) \<in> set (activeCampaigns s)" and "stuck (5 * 60 * 1000) (clock s) cs"
    and "0 \<le> d"
  shows "activeCampaigns (checkStuckCampaigns s) = activeCampaigns s \<and>
     pausedCampaigns (checkStuckCampaigns s) = pausedCampaigns s \<and>
     deliveries (checkStuckCampaigns s) = deliveries s \<and>
     timers (checkStuckCampaigns s) = timers s @
       map (\<lambda>(k, cs). (clock s + 2000, RunContinueCampaign k))
         (filter (\<lambda>(k, cs). stuck (5 * 60 * 1000) (clock s) cs) (activeCampaigns s)) \<and>
     (clock s + 2000, RunContinueCampaign k) \<in> set (timers (checkStuckCampaigns s)) \<and>
     (clock s + d + 2000, RunContinueCampaign k) \<in>
        set (timers (checkStuckCampaigns (elapse d (checkStuckCampaigns s)))) \<and>
     (connectionHealthCheckInterval s \<and>
      clock s - lastSuccessfulConnection s \<le> 10 * 60 * 1000 \<longrightarrow>
        connectionHealthCheck p s = checkStuckCampaigns s) \<and>
     (campaignHealthInterval s \<and> stuck (10 * 60 * 1000) (clock s) cs \<longrightarrow>
        activeCampaigns (campaignHealthMonitoring s) = activeCampaigns s \<and>
        (clock s + 5000, RunContinueCampaign k) \<in> set (timers (campaignHealthMonitoring s)))"
proof -
  let ?t = "elapse d (checkStuckCampaigns s)"
  have a: "(k, cs) \<in> set (activeCampaigns ?t)"
    using assms(1) checkStuck_frame [of s] by simp
  have c: "clock ?t = clock s + d"
    using checkStuck_frame [of s] by simp
  have "stuck (5 * 60 * 1000) (clock ?t) cs"
    using stuck_later [OF assms(2), of "clock s + d"] assms(3) c by simp
  from checkStuck_schedules [OF a this] c
  have "(clock s + d + 2000, RunContinueCampaign k) \<in> set (timers (checkStuckCampaigns ?t))"
    by simp
  with checkStuck_frame [of s] checkStuck_schedules [OF assms(1,2)]
    healthCheck_runs_stuck_check [of s p] monitor_frame [of s] monitor_schedules [OF assms(1)]
  show ?thesis
    by simp
qed

text \<open>
  The witness: the resumed campaign of the execution above, five minutes and a second
  after its resume, and a second run of the check 30 seconds after the first.
\<close>

theorem stuck_check_restarts_on_every_run_witness:
  "(''campaign_1'',
    (newCampaign ''campaign_1'' [''919876543210@c.us'', ''919876543211@c.us''] ''hello''
       ''30-60'' 0)
     \<lparr>sentCount := 1, lastActivity := 2000, pausedAt := Some 2000, resumedAt := Some 2000\<rparr>)
     \<in> set (activeCampaigns (elapse 301000 resumed)) \<and>
   stuck (5 * 60 * 1000) (clock (elapse 301000 resumed))
     ((newCampaign ''campaign_1'' [''919876543210@c.us'', ''919876543211@c.us''] ''hello''
        ''30-60'' 0)
      \<lparr>sentCount := 1, lastActivity := 2000, pausedAt := Some 2000, resumedAt := Some 2000\<rparr>) \<and>
   (0::int) \<le> 30000 \<and>
   (clock (elapse 301000 resumed) + 2000, RunContinueCampaign ''campaign_1'')
     \<in> set (timers (checkStuckCampaigns (elapse 301000 resumed))) \<and>
   (clock (elapse 301000 resumed) + 30000 + 2000, RunContinueCampaign ''campaign_1'')
     \<in> set (timers (checkStuckCampaigns
          (elapse 30000 (checkStuckCampaigns (elapse 301000 resumed)))))"
proof -
  have h: "(''campaign_1'',
    (newCampaign ''campaign_1'' [''919876543210@c.us'', ''919876543211@c.us''] ''hello''
       ''30-60'' 0)
     \<lparr>sentCount := 1, lastActivity := 2000, pausedAt := Some 2000, resumedAt := Some 2000\<rparr>)
     \<in> set (activeCampaigns (elapse 301000 resumed)) \<and>
   stuck (5 * 60 * 1000) (clock (elapse 301000 resumed))
     ((newCampaign ''campaign_1'' [''919876543210@c.us'', ''919876543211@c.us''] ''hello''
        ''30-60'' 0)
      \<lparr>sentCount := 1, lastActivity := 2000, pausedAt := Some 2000, resumedAt := Some 2000\<rparr>) \<and>
   (0::int) \<le> 30000"
    by code_simp
  show ?thesis
    using h stuck_check_restarts_on_every_run
      [of "''campaign_1''" _ "elapse 301000 resumed" 30000]
    by blast
qed

text \<open>
  The claim as the specification states it (exactly one restart attempt while the
  campaign remains stale) fails on the execution above: the check runs at 303000 and at
  333000, the campaign's last activity is 2000 at both, and each run reports the
  campaign as stuck and schedules a restart; the second restart starts a second call of
  the delivery loop for the same campaign while the first restarted call still awaits
  its send.
\<close>

theorem stale_campaign_restarted_at_each_check:
  "emitted checkedAgain =
     [BulkSendStart 2 (Some ''campaign_1'') None,
      BulkSendStart 2 (Some ''campaign_1'') (Some (2, 0, 0)),
      MessageSent ''919876543210@c.us'' ''sent'' None 1 2 (Some ''campaign_1''),
      HumanBehavior ''919876543210@c.us'' ''human_delay'' 1 2 (Some ''campaign_1''),
      CampaignStuck ''campaign_1'' 303000 301000,
      BulkSendStart 2 (Some ''campaign_1'') (Some (2, 1, 0)),
      CampaignStuck ''campaign_1'' 333000 331000] \<and>
   map snd (timers checkedAgain) =
     [RunContinueCampaign ''campaign_1'', RunContinueCampaign ''campaign_1'',
      RunContinueCampaign ''campaign_1''] \<and>
   map phase (deliveries restartedAgain) = [Stopped, Sending, Sending] \<and>
   map cid (deliveries restartedAgain) =
     [Some ''campaign_1'', Some ''campaign_1'', Some ''campaign_1'']"
  by code_simp

section \<open>The retry policy\<close>






section \<open>The delivery loop, step by step\<close>

lemma validationBegins_reads:
  "client t = client s \<Longrightarrow> isClientReady t = isClientReady s \<Longrightarrow>
   isClientAuthenticated t = isClientAuthenticated s \<Longrightarrow>
   validationBegins t = validationBegins s"
  by (simp add: validationBegins_def split: option.splits)

lemma validationCaught_frame:
  "validationCaught b err s = (v, t) \<Longrightarrow>
     v = Some err \<and>
     activeCampaigns t = activeCampaigns s \<and> pausedCampaigns t = pausedCampaigns s \<and>
     deliveries t = deliveries s \<and> clock t = clock s \<and>
     (\<exists>pre. emitted t = emitted s @ pre)"
  by (auto simp add: validationCaught_def forceReconnection_def Let_def split: if_splits)

lemma stateArrives_frame:
  "stateArrives b p s = (v, t) \<Longrightarrow>
     activeCampaigns t = activeCampaigns s \<and> pausedCampaigns t = pausedCampaigns s \<and>
     deliveries t = deliveries s \<and> clock t = clock s \<and>
     (\<exists>pre. emitted t = emitted s @ pre)"
  by (auto simp add: stateArrives_def split: probe.splits if_splits
      dest!: validationCaught_frame)

lemma validateConnection_frame:
  "validateConnection b p s = (v, t) \<Longrightarrow>
     activeCampaigns t = activeCampaigns s \<and> pausedCampaigns t = pausedCampaigns s \<and>
     deliveries t = deliveries s \<and> clock t = clock s \<and>
     (\<exists>pre. emitted t = emitted s @ pre)"
  by (auto simp add: validateConnection_def split: reads.splits
      dest!: validationCaught_frame stateArrives_frame)

lemma sendWithRetries_frame:
  "sendWithRetries f g m s = (r, t) \<Longrightarrow>
     activeCampaigns t = activeCampaigns s \<and> pausedCampaigns t = pausedCampaigns s \<and>
     deliveries t = deliveries s \<and> clock t = clock s \<and>
     (\<exists>pre. emitted t = emitted s @ pre)"
proof (induction f g m s arbitrary: r t rule: sendWithRetries.induct)
  case (1 f g m s)
  show ?case
  proof (cases "m < maxAttempts \<and> (\<exists>e. f m = Rejected e \<and> \<not> isNumberUnavailableError e)
      \<and> m + 1 < maxAttempts")
    case False
    with "1.prems" show ?thesis
      by (auto simp add: sendWithRetries.simps [of f g m s] split: send_result.splits if_splits)
  next
    case True
    then obtain e where e: "f m = Rejected e" "\<not> isNumberUnavailableError e"
      and m: "m < maxAttempts" "m + 1 < maxAttempts"
      by auto
    obtain v u where v: "validateConnection True (g m) s = (v, u)"
      by (cases "validateConnection True (g m) s")
    note fr = validateConnection_frame [OF v]
    show ?thesis
    proof (cases v)
      case (Some err)
      with v e m "1.prems" fr show ?thesis
        by (auto simp add: sendWithRetries.simps [of f g m s])
    next
      case None
      with v e m "1.prems" have rec: "sendWithRetries f g (m + 1) u = (r, t)"
        by (simp add: sendWithRetries.simps [of f g m s])
      from "1.IH" [OF m(1) e(1) e(2) m(2) v [symmetric] None rec] fr
      show ?thesis by auto
    qed
  qed
qed





lemma closeChromeBrowser_shape:
  "closeChromeBrowser d s = (d', s') \<Longrightarrow>
     s' = s \<and> d' = d\<lparr>phase := phase d'\<rparr> \<and> (phase d' = Closing \<or> phase d' = Completed)"
  by (auto simp add: closeChromeBrowser_def split: option.splits if_splits)

lemma finish_shape:
  "finish d s = (d', s') \<Longrightarrow>
     d' = d\<lparr>phase := phase d'\<rparr> \<and> (phase d' = Closing \<or> phase d' = Completed) \<and>
     deliveries s' = deliveries s \<and> pausedCampaigns s' = pausedCampaigns s \<and>
     clock s' = clock s \<and> timers s' = timers s \<and> (\<exists>post. emitted s' = emitted s @ post)"
  by (auto simp add: finish_def Let_def split: option.splits dest!: closeChromeBrowser_shape)

lemma finish_absent:
  "cid d = Some k \<Longrightarrow> map_of (activeCampaigns s) k = None \<Longrightarrow>
   finish d s = (d\<lparr>phase := Completed\<rparr>, s)"
  by (simp add: finish_def)

lemma finish_present:
  "cid d = Some k \<Longrightarrow> map_of (activeCampaigns s) k = Some cs \<Longrightarrow> finish d s = (d', s') \<Longrightarrow>
   map_of (activeCampaigns s') k = None \<and>
   emitted s' = emitted s @
     [BulkSendComplete (length (phoneNumbers cs)) (sentCount cs) (failedCount cs)
        (Some (countStatus ''unavailable'' d, countStatus ''connection'' d,
               countStatus ''failed'' d)) (Some k)]"
  by (auto simp add: finish_def Let_def delete_conv' dest!: closeChromeBrowser_shape)

lemma updateCampaign_frame [simp]:
  "pausedCampaigns (updateCampaign c f s) = pausedCampaigns s"
  "deliveries (updateCampaign c f s) = deliveries s"
  "emitted (updateCampaign c f s) = emitted s"
  "clock (updateCampaign c f s) = clock s"
  "timers (updateCampaign c f s) = timers s"
  "client (updateCampaign c f s) = client s"
  "isClientReady (updateCampaign c f s) = isClientReady s"
  "isClientAuthenticated (updateCampaign c f s) = isClientAuthenticated s"
  by (simp_all add: updateCampaign_def split: option.splits)

lemma updateCampaign_present:
  "map_of (activeCampaigns s) k = Some cs \<Longrightarrow>
   activeCampaigns (updateCampaign (Some k) f s) = AList.update k (f cs) (activeCampaigns s)"
  by (simp add: updateCampaign_def)

lemma updateCampaign_absent:
  "map_of (activeCampaigns s) k = None \<Longrightarrow> updateCampaign (Some k) f s = s"
  by (simp add: updateCampaign_def)

lemma updateCampaign_none:
  "updateCampaign None f s = s"
  by (simp add: updateCampaign_def)

lemma pauseCheck_frame:
  "pauseCheck d s = Some s1 \<Longrightarrow>
     pausedCampaigns s1 = pausedCampaigns s \<and> deliveries s1 = deliveries s \<and>
     emitted s1 = emitted s \<and> clock s1 = clock s \<and> timers s1 = timers s \<and>
     client s1 = client s \<and> isClientReady s1 = isClientReady s \<and>
     isClientAuthenticated s1 = isClientAuthenticated s"
  by (auto simp add: pauseCheck_def split: option.splits if_splits)

lemma pauseCheck_absent:
  "cid d = Some k \<Longrightarrow> map_of (activeCampaigns s) k = None \<Longrightarrow> pauseCheck d s = None"
  by (simp add: pauseCheck_def)

lemma pauseCheck_present:
  "cid d = Some k \<Longrightarrow> map_of (activeCampaigns s) k = Some cs \<Longrightarrow> \<not> isPaused cs \<Longrightarrow>
   pauseCheck d s =
     Some (s\<lparr>activeCampaigns :=
               AList.update k (cs\<lparr>currentIndex := startIndex d + pos d\<rparr>) (activeCampaigns s)\<rparr>)"
  by (simp add: pauseCheck_def)

lemma pauseCheck_none:
  "cid d = None \<Longrightarrow> pauseCheck d s = Some s"
  by (simp add: pauseCheck_def)

lemma recordThrown_unfold:
  "recordThrown err d s =
     (d\<lparr>results := results d @
           [(numbers d ! pos d, fst (categorize err), Some (snd (categorize err)))],
        failureCount := failureCount d + 1, pos := pos d + 1\<rparr>,
      emit (MessageSent (numbers d ! pos d) (fst (categorize err)) (Some (snd (categorize err)))
              (progressOf d) (totalOf d) (cid d))
        (updateCampaign (cid d)
           (\<lambda>cs. cs\<lparr>failedCount := failedCount cs + 1, lastActivity := clock s\<rparr>) s))"
  by (simp add: recordThrown_def Let_def case_prod_beta)

lemma iterationTop_finishes:
  "\<not> pos d < length (numbers d) \<Longrightarrow> iterationTop d s = finish d s"
  by (simp add: iterationTop.simps [of d s])

lemma iterationTop_stops:
  "pos d < length (numbers d) \<Longrightarrow> pauseCheck d s = None \<Longrightarrow>
   iterationTop d s = (d\<lparr>phase := Stopped\<rparr>, s)"
  by (simp add: iterationTop.simps [of d s])

lemma iterationTop_validates:
  "pos d < length (numbers d) \<Longrightarrow> pauseCheck d s = Some s1 \<Longrightarrow>
   validationBegins s1 = CallsGetState \<Longrightarrow>
   iterationTop d s = (d\<lparr>phase := Validating\<rparr>, s1)"
  by (simp add: iterationTop.simps [of d s])

lemma iterationTop_thrownEarly:
  "pos d < length (numbers d) \<Longrightarrow> pauseCheck d s = Some s1 \<Longrightarrow>
   validationBegins s1 = ThrownEarly err \<Longrightarrow>
   iterationTop d s = afterThrown err d s1"
  by (simp add: iterationTop.simps [of d s] afterThrown_def)

lemma iterationTop_pageGone:
  "pos d < length (numbers d) \<Longrightarrow> pauseCheck d s = Some s1 \<Longrightarrow>
   validationBegins s1 = PageGone \<Longrightarrow>
   iterationTop d s =
     afterThrown ''Browser page is closed'' d
       (snd (validationCaught True ''Browser page is closed'' s1))"
  by (simp add: iterationTop.simps [of d s] afterThrown_def Let_def)

lemma iterationTop_absent:
  "cid d = Some k \<Longrightarrow> map_of (activeCampaigns s) k = None \<Longrightarrow>
   iterationTop d s =
     (d\<lparr>phase := (if pos d < length (numbers d) then Stopped else Completed)\<rparr>, s)"
  by (simp add: iterationTop.simps [of d s] pauseCheck_absent finish_absent)

lemma pauseCheck_phase:
  "pauseCheck (d\<lparr>phase := ph\<rparr>) s = pauseCheck d s"
  by (simp add: pauseCheck_def split: option.splits)

lemma recordThrown_fields:
  "numbers (fst (recordThrown err d s)) = numbers d"
  "cid (fst (recordThrown err d s)) = cid d"
  "startIndex (fst (recordThrown err d s)) = startIndex d"
  "successCount (fst (recordThrown err d s)) = successCount d"
  "results (fst (recordThrown err d s)) = results d @
     [(numbers d ! pos d, fst (categorize err), Some (snd (categorize err)))]"
  "failureCount (fst (recordThrown err d s)) = failureCount d + 1"
  "pos (fst (recordThrown err d s)) = pos d + 1"
  "deliveries (snd (recordThrown err d s)) = deliveries s"
  "pausedCampaigns (snd (recordThrown err d s)) = pausedCampaigns s"
  "clock (snd (recordThrown err d s)) = clock s"
  "emitted (snd (recordThrown err d s)) = emitted s @
     [MessageSent (numbers d ! pos d) (fst (categorize err)) (Some (snd (categorize err)))
        (progressOf d) (totalOf d) (cid d)]"
  "client (snd (recordThrown err d s)) = client s"
  "isClientReady (snd (recordThrown err d s)) = isClientReady s"
  "isClientAuthenticated (snd (recordThrown err d s)) = isClientAuthenticated s"
  by (simp_all add: recordThrown_unfold emit_def)

lemma iterationTop_general:
  "iterationTop d s = (d', s') \<Longrightarrow>
     numbers d' = numbers d \<and> cid d' = cid d \<and> startIndex d' = startIndex d \<and>
     successCount d' = successCount d \<and>
     (\<exists>rest. results d' = results d @ rest \<and>
        failureCount d' = failureCount d + length rest \<and> pos d' = pos d + length rest) \<and>
     deliveries s' = deliveries s \<and> pausedCampaigns s' = pausedCampaigns s \<and>
     clock s' = clock s \<and> (\<exists>post. emitted s' = emitted s @ post) \<and>
     (phase d' = Validating \<and> pos d' < length (numbers d) \<and>
        validationBegins s' = CallsGetState \<or>
      phase d' = Stopped \<and> pos d' < length (numbers d) \<and> pauseCheck d' s' = None \<or>
      (phase d' = Closing \<or> phase d' = Completed) \<and> \<not> pos d' < length (numbers d)) \<and>
     (pos d \<le> length (numbers d) \<longrightarrow> pos d' \<le> length (numbers d))"
proof (induction d s arbitrary: d' s' rule: iterationTop.induct)
  case (1 d s)
  note run = "1.prems"
  have nil: "results x = results d \<and> failureCount x = failureCount d \<and> pos x = pos d \<Longrightarrow>
     \<exists>rest. results x = results d @ rest \<and>
        failureCount x = failureCount d + length rest \<and> pos x = pos d + length rest" for x
    by simp
  show ?case
  proof (cases "pos d < length (numbers d)")
    case False
    with run have f: "finish d s = (d', s')"
      by (simp add: iterationTop_finishes)
    note sh = finish_shape [OF f]
    from sh have d'eq: "d' = d\<lparr>phase := phase d'\<rparr>" by simp
    have fields: "numbers d' = numbers d \<and> cid d' = cid d \<and> startIndex d' = startIndex d \<and>
       successCount d' = successCount d \<and> results d' = results d \<and>
       failureCount d' = failureCount d \<and> pos d' = pos d"
      by (subst d'eq, simp, subst d'eq, simp, subst d'eq, simp, subst d'eq, simp,
          subst d'eq, simp, subst d'eq, simp, subst d'eq, simp)
    with False have c: "\<not> pos d' < length (numbers d)" by simp
    from fields have bd: "pos d \<le> length (numbers d) \<longrightarrow> pos d' \<le> length (numbers d)"
      by simp
    from fields nil [of d'] c bd sh show ?thesis by blast
  next
    case True
    show ?thesis
    proof (cases "pauseCheck d s")
      case None
      with True run have e: "d' = d\<lparr>phase := Stopped\<rparr>" "s' = s"
        by (simp_all add: iterationTop_stops)
      from e None True have "phase d' = Stopped \<and> pos d' < length (numbers d) \<and>
          pauseCheck d' s' = None"
        by (simp add: pauseCheck_phase)
      with nil [of d'] e show ?thesis by simp
    next
      case (Some s1)
      note pf = pauseCheck_frame [OF Some]
      show ?thesis
      proof (cases "validationBegins s1")
        case CallsGetState
        with True Some run have e: "d' = d\<lparr>phase := Validating\<rparr>" "s' = s1"
          by (simp_all add: iterationTop_validates)
        from e CallsGetState True have "phase d' = Validating \<and> pos d' < length (numbers d) \<and>
          validationBegins s' = CallsGetState"
          by simp
        with nil [of d'] e pf show ?thesis by simp
      next
        case (ThrownEarly err)
        let ?d1 = "fst (recordThrown err d s1)"
        let ?s2 = "snd (recordThrown err d s1)"
        from True Some ThrownEarly run have rec: "iterationTop ?d1 ?s2 = (d', s')"
          by (simp add: iterationTop.simps [of d s])
        note ih = "1.IH"(1) [OF True Some ThrownEarly rec]
        from ih obtain rest post where
          r: "results d' = results ?d1 @ rest \<and>
              failureCount d' = failureCount ?d1 + length rest \<and> pos d' = pos ?d1 + length rest"
          and p: "emitted s' = emitted ?s2 @ post"
          by blast
        let ?e = "(numbers d ! pos d, fst (categorize err), Some (snd (categorize err)))"
        from r have "results d' = results d @ (?e # rest) \<and>
              failureCount d' = failureCount d + length (?e # rest) \<and>
              pos d' = pos d + length (?e # rest)"
          by (simp add: recordThrown_fields)
        then have r': "\<exists>rest. results d' = results d @ rest \<and>
              failureCount d' = failureCount d + length rest \<and> pos d' = pos d + length rest"
          by blast
        from p pf have p': "\<exists>post. emitted s' = emitted s @ post"
          by (simp add: recordThrown_fields)
        from ih r' p' pf True show ?thesis
          by (simp add: recordThrown_fields)
      next
        case PageGone
        let ?s1' = "snd (validationCaught True ''Browser page is closed'' s1)"
        let ?err = "''Browser page is closed''"
        let ?d1 = "fst (recordThrown ?err d ?s1')"
        let ?s2 = "snd (recordThrown ?err d ?s1')"
        from True Some PageGone run have rec: "iterationTop ?d1 ?s2 = (d', s')"
          by (simp add: iterationTop.simps [of d s] Let_def)
        note ih = "1.IH"(2) [OF True Some PageGone refl rec]
        have vc: "activeCampaigns ?s1' = activeCampaigns s1 \<and> pausedCampaigns ?s1' = pausedCampaigns s1 \<and>
          deliveries ?s1' = deliveries s1 \<and> clock ?s1' = clock s1 \<and>
          (\<exists>pre. emitted ?s1' = emitted s1 @ pre)"
          using validationCaught_frame [of True ?err s1 "fst (validationCaught True ?err s1)" ?s1']
          by simp
        from ih obtain rest post where
          r: "results d' = results ?d1 @ rest \<and>
              failureCount d' = failureCount ?d1 + length rest \<and> pos d' = pos ?d1 + length rest"
          and p: "emitted s' = emitted ?s2 @ post"
          by blast
        let ?e = "(numbers d ! pos d, fst (categorize ?err), Some (snd (categorize ?err)))"
        from r have "results d' = results d @ (?e # rest) \<and>
              failureCount d' = failureCount d + length (?e # rest) \<and>
              pos d' = pos d + length (?e # rest)"
          by (simp add: recordThrown_fields)
        then have r': "\<exists>rest. results d' = results d @ rest \<and>
              failureCount d' = failureCount d + length rest \<and> pos d' = pos d + length rest"
          by blast
        from vc obtain pre where "emitted ?s1' = emitted s1 @ pre" by blast
        with p pf have p': "\<exists>post. emitted s' = emitted s @ post"
          by (simp add: recordThrown_fields)
        from ih r' p' pf vc True show ?thesis
          by (simp add: recordThrown_fields)
      qed
    qed
  qed
qed

lemma store_nth:
  "n < length (deliveries s') \<Longrightarrow>
     deliveries (store n (d', s')) ! n = d' \<and>
     length (deliveries (store n (d', s'))) = length (deliveries s') \<and>
     activeCampaigns (store n (d', s')) = activeCampaigns s' \<and>
     pausedCampaigns (store n (d', s')) = pausedCampaigns s' \<and>
     emitted (store n (d', s')) = emitted s' \<and>
     timers (store n (d', s')) = timers s' \<and>
     clock (store n (d', s')) = clock s'"
  by (simp add: store_def)

section \<open>An exception in one attempt\<close>

lemma settle_thrown:
  assumes "n < length (deliveries t)" and "deliveries t ! n = d"
    and "phase d = Sending" and "pos d < length (numbers d)"
    and "sendWithRetries (sends w) (atRetry w) 0 t = ((Threw err, a), s)"
  shows "settle w n t = store n (afterThrown err d s)"
  using assms by (simp add: settle_def Let_def)

lemma validated_thrown:
  assumes "n < length (deliveries t)" and "deliveries t ! n = d"
    and "phase d = Validating" and "pos d < length (numbers d)"
    and "stateArrives True p t = (Some err, s)"
  shows "validated p n t = store n (afterThrown err d s)"
  using assms by (simp add: validated_def Let_def)

text \<open>
  Claim C7, as the code has it. For every recipient, an exception thrown during that
  recipient's delivery attempt never aborts the loop. Wherever it is thrown (by the
  sends and their retries, by the validation once \<^verbatim>\<open>getState\<close> has settled, or by the
  validation before it calls \<^verbatim>\<open>getState\<close>), it reaches the \<^verbatim>\<open>catch\<close> block of the loop
  body: it is classified, the call's own failure tally and result list record it
  against that recipient, a per-recipient progress event is emitted, and the loop goes
  on to the next iteration, where it awaits the next validation, returns at the pause
  check, or leaves the loop at the end of the list; recipients whose validation throws
  before anything is awaited are failed one after the other in the same way. When the
  next validation can call \<^verbatim>\<open>getState\<close>, exactly this recipient is failed and the call
  awaits the validation for the next one. The campaign's \<^verbatim>\<open>failedCount\<close> is incremented
  when the campaign is in the active pool at that moment, also for the last recipient,
  where the completion event reports the incremented count; when the campaign is not
  in the active pool (it was paused during the attempt), no counter of any campaign
  changes and the call returns at the pause check.
\<close>

theorem thrown_attempt_is_contained:
  assumes i: "pos d < length (numbers d)" and c: "afterThrown err d s = (d', s')"
  shows
    "(\<forall>w n t a. n < length (deliveries t) \<and> deliveries t ! n = d \<and> phase d = Sending \<and>
        sendWithRetries (sends w) (atRetry w) 0 t = ((Threw err, a), s) \<longrightarrow>
          settle w n t = store n (d', s') \<and> deliveries (settle w n t) ! n = d' \<and>
          activeCampaigns s = activeCampaigns t \<and> pausedCampaigns s = pausedCampaigns t \<and>
          clock s = clock t) \<and>
     (\<forall>p n t. n < length (deliveries t) \<and> deliveries t ! n = d \<and> phase d = Validating \<and>
        stateArrives True p t = (Some err, s) \<longrightarrow>
          validated p n t = store n (d', s') \<and> deliveries (validated p n t) ! n = d' \<and>
          activeCampaigns s = activeCampaigns t \<and> pausedCampaigns s = pausedCampaigns t \<and>
          clock s = clock t) \<and>
     (\<forall>t. pauseCheck d t = Some s \<and> validationBegins s = ThrownEarly err \<longrightarrow>
          iterationTop d t = (d', s')) \<and>
     (\<forall>t t1. pauseCheck d t = Some t1 \<and> validationBegins t1 = PageGone \<and>
        err = ''Browser page is closed'' \<and> s = snd (validationCaught True err t1) \<longrightarrow>
          iterationTop d t = (d', s')) \<and>
     numbers d' = numbers d \<and> cid d' = cid d \<and> successCount d' = successCount d \<and>
     (\<exists>rest. results d' = results d @
          (numbers d ! pos d, fst (categorize err), Some (snd (categorize err))) # rest \<and>
        failureCount d' = failureCount d + 1 + length rest \<and>
        pos d' = pos d + 1 + length rest) \<and>
     (\<exists>post. emitted s' = emitted s @
        MessageSent (numbers d ! pos d) (fst (categorize err)) (Some (snd (categorize err)))
          (progressOf d) (totalOf d) (cid d) # post) \<and>
     pausedCampaigns s' = pausedCampaigns s \<and> deliveries s' = deliveries s \<and>
     (phase d' = Validating \<and> pos d' < length (numbers d) \<and>
        validationBegins s' = CallsGetState \<or>
      phase d' = Stopped \<and> pos d' < length (numbers d) \<and> pauseCheck d' s' = None \<or>
      (phase d' = Closing \<or> phase d' = Completed) \<and> pos d' = length (numbers d)) \<and>
     (cid d = None \<and> pos d + 1 < length (numbers d) \<and> validationBegins s = CallsGetState \<longrightarrow>
        d' = d\<lparr>results := results d @
                 [(numbers d ! pos d, fst (categorize err), Some (snd (categorize err)))],
               failureCount := failureCount d + 1, pos := pos d + 1, phase := Validating\<rparr> \<and>
        s' = emit (MessageSent (numbers d ! pos d) (fst (categorize err))
                     (Some (snd (categorize err))) (progressOf d) (totalOf d) (cid d)) s) \<and>
     (\<forall>k cs. cid d = Some k \<and> map_of (activeCampaigns s) k = Some cs \<and> \<not> isPaused cs \<and>
          pos d + 1 < length (numbers d) \<and> validationBegins s = CallsGetState \<longrightarrow>
        d' = d\<lparr>results := results d @
                 [(numbers d ! pos d, fst (categorize err), Some (snd (categorize err)))],
               failureCount := failureCount d + 1, pos := pos d + 1, phase := Validating\<rparr> \<and>
        map_of (activeCampaigns s') k =
          Some (cs\<lparr>failedCount := failedCount cs + 1, lastActivity := clock s,
                   currentIndex := startIndex d + pos d + 1\<rparr>) \<and>
        emitted s' = emitted s @
          [MessageSent (numbers d ! pos d) (fst (categorize err)) (Some (snd (categorize err)))
             (progressOf d) (totalOf d) (cid d)]) \<and>
     (\<forall>k cs. cid d = Some k \<and> map_of (activeCampaigns s) k = Some cs \<and>
          pos d + 1 = length (numbers d) \<longrightarrow>
        (phase d' = Closing \<or> phase d' = Completed) \<and>
        map_of (activeCampaigns s') k = None \<and>
        emitted s' = emitted s @
          [MessageSent (numbers d ! pos d) (fst (categorize err)) (Some (snd (categorize err)))
             (progressOf d) (totalOf d) (cid d),
           BulkSendComplete (length (phoneNumbers cs)) (sentCount cs) (failedCount cs + 1)
             (Some (countStatus ''unavailable'' d', countStatus ''connection'' d',
                    countStatus ''failed'' d')) (Some k)]) \<and>
     (\<forall>k. cid d = Some k \<and> map_of (activeCampaigns s) k = None \<longrightarrow>
        d' = d\<lparr>results := results d @
                 [(numbers d ! pos d, fst (categorize err), Some (snd (categorize err)))],
               failureCount := failureCount d + 1, pos := pos d + 1,
               phase := (if pos d + 1 < length (numbers d) then Stopped else Completed)\<rparr> \<and>
        s' = emit (MessageSent (numbers d ! pos d) (fst (categorize err))
                     (Some (snd (categorize err))) (progressOf d) (totalOf d) (cid d)) s)"
proof -
  let ?x = "numbers d ! pos d"
  let ?entry = "(?x, fst (categorize err), Some (snd (categorize err)))"
  let ?ev = "MessageSent ?x (fst (categorize err)) (Some (snd (categorize err)))
          (progressOf d) (totalOf d) (cid d)"
  let ?d1 = "d\<lparr>results := results d @ [?entry], failureCount := failureCount d + 1,
              pos := pos d + 1\<rparr>"
  let ?f = "\<lambda>cs. cs\<lparr>failedCount := failedCount cs + 1, lastActivity := clock s\<rparr>"
  let ?s2 = "emit ?ev (updateCampaign (cid d) ?f s)"
  have rt: "recordThrown err d s = (?d1, ?s2)"
    by (simp add: recordThrown_unfold)
  with c have top: "iterationTop ?d1 ?s2 = (d', s')"
    by (simp add: afterThrown_def)
  note gen = iterationTop_general [OF top]
  have site1: "settle w n t = store n (d', s') \<and> deliveries (settle w n t) ! n = d' \<and>
          activeCampaigns s = activeCampaigns t \<and> pausedCampaigns s = pausedCampaigns t \<and>
          clock s = clock t"
    if h: "n < length (deliveries t) \<and> deliveries t ! n = d \<and> phase d = Sending \<and>
        sendWithRetries (sends w) (atRetry w) 0 t = ((Threw err, a), s)" for w n t a
  proof -
    from h have run: "sendWithRetries (sends w) (atRetry w) 0 t = ((Threw err, a), s)" by simp
    note fr = sendWithRetries_frame [OF run]
    from h i c have st: "settle w n t = store n (d', s')"
      using settle_thrown [of n t d w err a s] by simp
    from gen fr h have "n < length (deliveries s')" by simp
    from store_nth [OF this, of d'] st fr show ?thesis by simp
  qed
  have site2: "validated p n t = store n (d', s') \<and> deliveries (validated p n t) ! n = d' \<and>
          activeCampaigns s = activeCampaigns t \<and> pausedCampaigns s = pausedCampaigns t \<and>
          clock s = clock t"
    if h: "n < length (deliveries t) \<and> deliveries t ! n = d \<and> phase d = Validating \<and>
        stateArrives True p t = (Some err, s)" for p n t
  proof -
    from h have run: "stateArrives True p t = (Some err, s)" by simp
    note fr = stateArrives_frame [OF run]
    from h i c have st: "validated p n t = store n (d', s')"
      using validated_thrown [of n t d p err s] by simp
    from gen fr h have "n < length (deliveries s')" by simp
    from store_nth [OF this, of d'] st fr show ?thesis by simp
  qed
  have site3: "iterationTop d t = (d', s')"
    if h: "pauseCheck d t = Some s \<and> validationBegins s = ThrownEarly err" for t
    using h i c iterationTop_thrownEarly [of d t s err] by simp
  have site4: "iterationTop d t = (d', s')"
    if h: "pauseCheck d t = Some t1 \<and> validationBegins t1 = PageGone \<and>
        err = ''Browser page is closed'' \<and> s = snd (validationCaught True err t1)" for t t1
    using h i c iterationTop_pageGone [of d t t1] by simp
  from gen obtain rest post where
    r: "results d' = results ?d1 @ rest \<and> failureCount d' = failureCount ?d1 + length rest \<and>
        pos d' = pos ?d1 + length rest" and
    p: "emitted s' = emitted ?s2 @ post"
    by blast
  from r have "results d' = results d @ ?entry # rest \<and>
        failureCount d' = failureCount d + 1 + length rest \<and>
        pos d' = pos d + 1 + length rest"
    by simp
  then have tally: "\<exists>rest. results d' = results d @ ?entry # rest \<and>
        failureCount d' = failureCount d + 1 + length rest \<and>
        pos d' = pos d + 1 + length rest"
    by blast
  from p have "emitted s' = emitted s @ ?ev # post"
    by (simp add: emit_def)
  then have event: "\<exists>post. emitted s' = emitted s @ ?ev # post"
    by blast
  from gen have same: "numbers d' = numbers d \<and> cid d' = cid d \<and>
     successCount d' = successCount d \<and>
     pausedCampaigns s' = pausedCampaigns s \<and> deliveries s' = deliveries s"
    by simp
  from gen i have bound: "pos d' \<le> length (numbers d)"
    by simp
  from gen have "phase d' = Validating \<and> pos d' < length (numbers d) \<and>
        validationBegins s' = CallsGetState \<or>
      phase d' = Stopped \<and> pos d' < length (numbers d) \<and> pauseCheck d' s' = None \<or>
      (phase d' = Closing \<or> phase d' = Completed) \<and> \<not> pos d' < length (numbers d)"
    by simp
  moreover have "pos d' = length (numbers d)" if "\<not> pos d' < length (numbers d)"
    using that bound by simp
  ultimately have ends: "phase d' = Validating \<and> pos d' < length (numbers d) \<and>
        validationBegins s' = CallsGetState \<or>
      phase d' = Stopped \<and> pos d' < length (numbers d) \<and> pauseCheck d' s' = None \<or>
      (phase d' = Closing \<or> phase d' = Completed) \<and> pos d' = length (numbers d)"
    by blast
  have vb: "validationBegins t = validationBegins s"
    if "client t = client s \<and> isClientReady t = isClientReady s \<and>
        isClientAuthenticated t = isClientAuthenticated s" for t
    using that validationBegins_reads [of t s] by simp
  have none: "d' = ?d1\<lparr>phase := Validating\<rparr> \<and> s' = emit ?ev s"
    if h: "cid d = None \<and> pos d + 1 < length (numbers d) \<and>
        validationBegins s = CallsGetState"
  proof -
    from h have s2: "?s2 = emit ?ev s" by (simp add: updateCampaign_none)
    have pc: "pauseCheck ?d1 ?s2 = Some ?s2" using h by (simp add: pauseCheck_none)
    have "validationBegins ?s2 = CallsGetState"
      using h vb [of ?s2] by (simp add: emit_def)
    from iterationTop_validates [OF _ pc this] h top s2 show ?thesis by simp
  qed
  have goes: "d' = ?d1\<lparr>phase := Validating\<rparr> \<and>
        map_of (activeCampaigns s') k =
          Some (cs\<lparr>failedCount := failedCount cs + 1, lastActivity := clock s,
                   currentIndex := startIndex d + pos d + 1\<rparr>) \<and>
        emitted s' = emitted s @ [?ev]"
    if h: "cid d = Some k \<and> map_of (activeCampaigns s) k = Some cs \<and> \<not> isPaused cs \<and>
          pos d + 1 < length (numbers d) \<and> validationBegins s = CallsGetState" for k cs
  proof -
    from h have m1: "map_of (activeCampaigns s) k = Some cs" by simp
    have a2: "activeCampaigns ?s2 = AList.update k (?f cs) (activeCampaigns s)"
      using h updateCampaign_present [OF m1, of ?f] by (simp add: emit_def)
    then have m2: "map_of (activeCampaigns ?s2) k = Some (?f cs)"
      by (simp add: update_conv')
    let ?s3 = "?s2\<lparr>activeCampaigns :=
           AList.update k ((?f cs)\<lparr>currentIndex := startIndex ?d1 + pos ?d1\<rparr>)
             (activeCampaigns ?s2)\<rparr>"
    have pc: "pauseCheck ?d1 ?s2 = Some ?s3"
      using h by (intro pauseCheck_present [OF _ m2]) simp_all
    have "validationBegins ?s3 = CallsGetState"
      using h vb [of ?s3] by (simp add: emit_def)
    from iterationTop_validates [OF _ pc this] h top
    have "d' = ?d1\<lparr>phase := Validating\<rparr>" and "s' = ?s3" by simp_all
    then show ?thesis
      by (simp add: update_conv' emit_def)
  qed
  have fin: "(phase d' = Closing \<or> phase d' = Completed) \<and>
        map_of (activeCampaigns s') k = None \<and>
        emitted s' = emitted s @
          [?ev,
           BulkSendComplete (length (phoneNumbers cs)) (sentCount cs) (failedCount cs + 1)
             (Some (countStatus ''unavailable'' d', countStatus ''connection'' d',
                    countStatus ''failed'' d')) (Some k)]"
    if h: "cid d = Some k \<and> map_of (activeCampaigns s) k = Some cs \<and>
          pos d + 1 = length (numbers d)" for k cs
  proof -
    from h have m1: "map_of (activeCampaigns s) k = Some cs" by simp
    have a2: "activeCampaigns ?s2 = AList.update k (?f cs) (activeCampaigns s)"
      using h updateCampaign_present [OF m1, of ?f] by (simp add: emit_def)
    then have m2: "map_of (activeCampaigns ?s2) k = Some (?f cs)"
      by (simp add: update_conv')
    have "\<not> pos ?d1 < length (numbers ?d1)" using h by simp
    with top have f: "finish ?d1 ?s2 = (d', s')"
      by (simp add: iterationTop_finishes)
    note sh = finish_shape [OF f]
    from sh have d'eq: "d' = ?d1\<lparr>phase := phase d'\<rparr>" by simp
    have "results d' = results ?d1" by (subst d'eq) simp
    then have cs: "countStatus st d' = countStatus st ?d1" for st
      by (simp add: countStatus_def)
    from finish_present [OF _ m2 f] h sh cs show ?thesis
      by (simp add: emit_def)
  qed
  have gone: "d' = ?d1\<lparr>phase := (if pos d + 1 < length (numbers d) then Stopped else Completed)\<rparr> \<and>
        s' = emit ?ev s"
    if h: "cid d = Some k \<and> map_of (activeCampaigns s) k = None" for k
  proof -
    from h have m1: "map_of (activeCampaigns s) k = None" by simp
    have u: "updateCampaign (cid d) ?f s = s"
      using h updateCampaign_absent [OF m1] by simp
    have m2: "map_of (activeCampaigns ?s2) k = None"
      using u m1 by (simp add: emit_def)
    have "iterationTop ?d1 ?s2 =
       (?d1\<lparr>phase := (if pos ?d1 < length (numbers ?d1) then Stopped else Completed)\<rparr>, ?s2)"
      using h by (intro iterationTop_absent [OF _ m2]) simp
    with top u show ?thesis by simp
  qed
  from site1 have c1: "\<forall>w n t a. n < length (deliveries t) \<and> deliveries t ! n = d \<and> phase d = Sending \<and>
        sendWithRetries (sends w) (atRetry w) 0 t = ((Threw err, a), s) \<longrightarrow>
          settle w n t = store n (d', s') \<and> deliveries (settle w n t) ! n = d' \<and>
          activeCampaigns s = activeCampaigns t \<and> pausedCampaigns s = pausedCampaigns t \<and>
          clock s = clock t"
    by blast
  from site2 have c2: "\<forall>p n t. n < length (deliveries t) \<and> deliveries t ! n = d \<and> phase d = Validating \<and>
        stateArrives True p t = (Some err, s) \<longrightarrow>
          validated p n t = store n (d', s') \<and> deliveries (validated p n t) ! n = d' \<and>
          activeCampaigns s = activeCampaigns t \<and> pausedCampaigns s = pausedCampaigns t \<and>
          clock s = clock t"
    by blast
  from site3 have c3: "\<forall>t. pauseCheck d t = Some s \<and> validationBegins s = ThrownEarly err \<longrightarrow>
          iterationTop d t = (d', s')"
    by blast
  from site4 have c4: "\<forall>t t1. pauseCheck d t = Some t1 \<and> validationBegins t1 = PageGone \<and>
        err = ''Browser page is closed'' \<and> s = snd (validationCaught True err t1) \<longrightarrow>
          iterationTop d t = (d', s')"
    by blast
  from none have c5: "cid d = None \<and> pos d + 1 < length (numbers d) \<and>
        validationBegins s = CallsGetState \<longrightarrow>
        d' = ?d1\<lparr>phase := Validating\<rparr> \<and> s' = emit ?ev s"
    by blast
  from goes have c6: "\<forall>k cs. cid d = Some k \<and> map_of (activeCampaigns s) k = Some cs \<and> \<not> isPaused cs \<and>
          pos d + 1 < length (numbers d) \<and> validationBegins s = CallsGetState \<longrightarrow>
        d' = ?d1\<lparr>phase := Validating\<rparr> \<and>
        map_of (activeCampaigns s') k =
          Some (cs\<lparr>failedCount := failedCount cs + 1, lastActivity := clock s,
                   currentIndex := startIndex d + pos d + 1\<rparr>) \<and>
        emitted s' = emitted s @ [?ev]"
    by blast
  from fin have c7: "\<forall>k cs. cid d = Some k \<and> map_of (activeCampaigns s) k = Some cs \<and>
          pos d + 1 = length (numbers d) \<longrightarrow>
        (phase d' = Closing \<or> phase d' = Completed) \<and>
        map_of (activeCampaigns s') k = None \<and>
        emitted s' = emitted s @
          [?ev,
           BulkSendComplete (length (phoneNumbers cs)) (sentCount cs) (failedCount cs + 1)
             (Some (countStatus ''unavailable'' d', countStatus ''connection'' d',
                    countStatus ''failed'' d')) (Some k)]"
    by blast
  from gone have c8: "\<forall>k. cid d = Some k \<and> map_of (activeCampaigns s) k = None \<longrightarrow>
        d' = ?d1\<lparr>phase := (if pos d + 1 < length (numbers d) then Stopped else Completed)\<rparr> \<and>
        s' = emit ?ev s"
    by blast
  from c1 c2 c3 c4 same tally event ends c5 c6 c7 c8 show ?thesis
    by blast
qed

text \<open>
  The witness: the first attempt of the execution above, all three sends rejected.
\<close>

theorem thrown_attempt_is_contained_witness:
  "pos (deliveries started ! 0) < length (numbers (deliveries started ! 0)) \<and>
   0 < length (deliveries started) \<and>
   phase (deliveries started ! 0) = Sending \<and>
   sendWithRetries (sends rejecting) (atRetry rejecting) 0 started =
     ((Threw ''Evaluation failed'', 3), started) \<and>
   cid (deliveries started ! 0) = Some ''campaign_1'' \<and>
   map_of (activeCampaigns started) ''campaign_1'' =
     Some (newCampaign ''campaign_1'' [''919876543210@c.us'', ''919876543211@c.us''] ''hello''
             ''30-60'' 0) \<and>
   validationBegins started = CallsGetState \<and>
   settle rejecting 0 started =
     store 0 (afterThrown ''Evaluation failed'' (deliveries started ! 0) started) \<and>
   deliveries (settle rejecting 0 started) ! 0 =
     (deliveries started ! 0)
       \<lparr>results := [(''919876543210@c.us'', ''failed'', Some ''Evaluation failed'')],
        failureCount := 1, pos := 1, phase := Validating\<rparr> \<and>
   map_of (activeCampaigns (settle rejecting 0 started)) ''campaign_1'' =
     Some ((newCampaign ''campaign_1'' [''919876543210@c.us'', ''919876543211@c.us''] ''hello''
             ''30-60'' 0)\<lparr>failedCount := 1, lastActivity := 2000, currentIndex := 1\<rparr>)"
proof -
  let ?d = "deliveries started ! 0"
  let ?c = "newCampaign ''campaign_1'' [''919876543210@c.us'', ''919876543211@c.us''] ''hello''
             ''30-60'' 0"
  let ?r = "afterThrown ''Evaluation failed'' ?d started"
  have h1: "pos ?d < length (numbers ?d)" by code_simp
  have h2: "?r = (fst ?r, snd ?r)" by simp
  have h3: "0 < length (deliveries started) \<and> phase ?d = Sending \<and>
     sendWithRetries (sends rejecting) (atRetry rejecting) 0 started =
       ((Threw ''Evaluation failed'', 3), started)"
    by code_simp
  have h4: "cid ?d = Some ''campaign_1'' \<and>
     map_of (activeCampaigns started) ''campaign_1'' = Some ?c \<and> \<not> isPaused ?c \<and>
     pos ?d + 1 < length (numbers ?d) \<and> validationBegins started = CallsGetState"
    by code_simp
  have v: "results ?d = [] \<and> numbers ?d ! 0 = ''919876543210@c.us'' \<and>
     categorize ''Evaluation failed'' = (''failed'', ''Evaluation failed'') \<and>
     failureCount ?d = 0 \<and> pos ?d = 0 \<and> startIndex ?d = 0 \<and> failedCount ?c = 0 \<and>
     clock started = 2000"
    by code_simp
  note t = thrown_attempt_is_contained [OF h1 h2]
  note site = t [THEN conjunct1, rule_format, of 0 started rejecting 3]
  note exact = t [THEN conjunct2, THEN conjunct2, THEN conjunct2, THEN conjunct2,
    THEN conjunct2, THEN conjunct2, THEN conjunct2, THEN conjunct2, THEN conjunct2,
    THEN conjunct2, THEN conjunct2, THEN conjunct2, THEN conjunct2, THEN conjunct1,
    rule_format, of "''campaign_1''" ?c]
  have pre: "0 < length (deliveries started) \<and> deliveries started ! 0 = ?d \<and>
     phase ?d = Sending \<and>
     sendWithRetries (sends rejecting) (atRetry rejecting) 0 started =
       ((Threw ''Evaluation failed'', 3), started)"
    using h3 by simp
  note a = site [OF pre]
  note b = exact [OF h4]
  from a have g1: "settle rejecting 0 started = store 0 ?r"
    by simp
  from a have "deliveries (settle rejecting 0 started) ! 0 = fst ?r"
    by (rule conjunct2 [THEN conjunct1])
  also from b have "fst ?r =
       ?d\<lparr>results := results ?d @
            [(numbers ?d ! pos ?d, fst (categorize ''Evaluation failed''),
              Some (snd (categorize ''Evaluation failed'')))],
          failureCount := failureCount ?d + 1, pos := pos ?d + 1, phase := Validating\<rparr>"
    by (rule conjunct1)
  also from v have "\<dots> =
       ?d\<lparr>results := [(''919876543210@c.us'', ''failed'', Some ''Evaluation failed'')],
          failureCount := 1, pos := 1, phase := Validating\<rparr>"
    by simp
  finally have g2: "deliveries (settle rejecting 0 started) ! 0 =
       ?d\<lparr>results := [(''919876543210@c.us'', ''failed'', Some ''Evaluation failed'')],
          failureCount := 1, pos := 1, phase := Validating\<rparr>" .
  have "activeCampaigns (settle rejecting 0 started) = activeCampaigns (snd ?r)"
    by (subst g1) (simp add: store_def)
  moreover from b have "map_of (activeCampaigns (snd ?r)) ''campaign_1'' =
       Some (?c\<lparr>failedCount := failedCount ?c + 1, lastActivity := clock started,
                currentIndex := startIndex ?d + pos ?d + 1\<rparr>)"
    by (rule conjunct2 [THEN conjunct1])
  ultimately have g3: "map_of (activeCampaigns (settle rejecting 0 started)) ''campaign_1'' =
       Some (?c\<lparr>failedCount := 1, lastActivity := 2000, currentIndex := 1\<rparr>)"
    using v by simp
  from h1 h3 h4 g1 g2 g3 show ?thesis by simp
qed

text \<open>
  The claim as the specification states it (\<^verbatim>\<open>failedCount\<close> incremented for every
  exception) fails when the campaign is paused while the attempt is awaited: the
  handler has moved the campaign to the paused pool, the catch block finds no campaign
  in the active pool, and the failure is emitted and tallied by the call but the
  campaign's \<^verbatim>\<open>failedCount\<close> stays 0.
\<close>

theorem failure_during_pause_is_not_counted:
  "map phase (deliveries pausedMidSend) = [Sending] \<and>
   activeCampaigns failedWhilePaused = [] \<and>
   map fst (pausedCampaigns failedWhilePaused) = [''campaign_1''] \<and>
   map failedCount (map snd (pausedCampaigns failedWhilePaused)) = [0] \<and>
   map failureCount (deliveries failedWhilePaused) = [1] \<and>
   emitted failedWhilePaused =
     [BulkSendStart 2 (Some ''campaign_1'') None,
      BulkSendStart 2 (Some ''campaign_1'') (Some (2, 0, 0)),
      MessageSent ''919876543210@c.us'' ''failed'' (Some ''Evaluation failed'') 1 2
        (Some ''campaign_1'')]"
  by code_simp

section \<open>Campaigns outside the active pool\<close>

























section \<open>Pausing\<close>







section \<open>Several campaigns\<close>






section \<open>Restarting a campaign\<close>

text \<open>
  Claim C1: for every campaign with N recipients, at every point of every execution
  (pause, resume and supervisory restart included) \<^verbatim>\<open>sentCount + failedCount\<close> never
  exceeds N, and it equals N when the campaign completes. The code departs from the
  claim. In the execution above the campaign has N = 2 recipients; one is sent, the
  campaign is paused and resumed, and the restart scheduled by the stuck check runs
  when its timeout is due. The restarted call keeps the counters and starts at the
  first recipient: \<^verbatim>\<open>sentCount\<close> is 2 after the first recipient is sent again, and the
  completion event reports total 2, success 3, failed 0.
\<close>

theorem restart_counts_recipients_again:
  "map phoneNumbers (map snd (activeCampaigns uploaded)) =
     [[''919876543210@c.us'', ''919876543211@c.us'']] \<and>
   map sentCount (map snd (pausedCampaigns stopped)) = [1] \<and>
   map failedCount (map snd (pausedCampaigns stopped)) = [0] \<and>
   map phase (deliveries resumed) = [Stopped] \<and>
   (305000, RunContinueCampaign ''campaign_1'') \<in> set (timers checked) \<and>
   clock (elapse 2000 checked) = 305000 \<and>
   map sentCount (map snd (activeCampaigns resent)) = [2] \<and>
   map phase (deliveries secondBegun) = [Stopped, Sending] \<and>
   activeCampaigns lastSent = [] \<and>
   last (emitted lastSent) = BulkSendComplete 2 3 0 (Some (0, 0, 0)) (Some ''campaign_1'')"
  by code_simp

text \<open>
  Claim C2: for every campaign paused after k recipients have been processed, resuming
  it restarts delivery at recipient index k, and recipients below k are never attempted
  again nor counted again. The code departs from the claim. In the execution above
  k = 1 (the call stopped with its loop variable at 1). The resume request answers 500
  and starts no call and no timeout; the next start of the campaign, by the stuck
  check, calls the delivery loop with start index 0 and loop variable 0, sets the
  campaign's cursor back to 0, sends to the first recipient a second time and counts
  it a second time.
\<close>

theorem resume_does_not_continue_from_the_cursor:
  "map sentCount (map snd (pausedCampaigns stopped)) = [1] \<and>
   map pos (deliveries stopped) = [1] \<and>
   fst (postCampaignResume ''campaign_1'' stopped) = 500 \<and>
   deliveries resumed = deliveries stopped \<and>
   map phase (deliveries resumed) = [Stopped] \<and>
   timers resumed = timers stopped \<and>
   map startIndex (deliveries restarted) = [0, 0] \<and>
   map pos (deliveries restarted) = [1, 0] \<and>
   map phase (deliveries restarted) = [Stopped, Sending] \<and>
   map currentIndex (map snd (activeCampaigns restarted)) = [0] \<and>
   emitted resent =
     [BulkSendStart 2 (Some ''campaign_1'') None,
      BulkSendStart 2 (Some ''campaign_1'') (Some (2, 0, 0)),
      MessageSent ''919876543210@c.us'' ''sent'' None 1 2 (Some ''campaign_1''),
      HumanBehavior ''919876543210@c.us'' ''human_delay'' 1 2 (Some ''campaign_1''),
      CampaignStuck ''campaign_1'' 303000 301000,
      BulkSendStart 2 (Some ''campaign_1'') (Some (2, 1, 0)),
      MessageSent ''919876543210@c.us'' ''sent'' None 1 2 (Some ''campaign_1''),
      HumanBehavior ''919876543210@c.us'' ''human_delay'' 1 2 (Some ''campaign_1'')] \<and>
   map sentCount (map snd (activeCampaigns resent)) = [2]"
  by code_simp

end
